theory Spec2Isabelle
  imports Main
begin

unbundle bit_operations_syntax

section \<open>Descriptor codec (Descriptor.ts)\<close>

text \<open>
  A JavaScript string is modelled as a \<open>string\<close>; a descriptor is the protobuf
  message with its three fields, an unset \<open>disambiguator\<close> being the empty string.
  The \<open>Suffix\<close> enumeration has one member more than \<open>descriptorString\<close>
  handles (\<open>UnspecifiedSuffix\<close>, the protobuf default), so that the \<open>default\<close>
  branch of its \<open>switch\<close>, which throws, is a branch of the model.
\<close>

datatype Suffix =
    UnspecifiedSuffix
  | Package
  | Type
  | Term
  | Method
  | TypeParameter
  | Parameter
  | Meta

record Descriptor =
  name :: string
  suffix :: Suffix
  disambiguator :: string

datatype indexer_error =
    UnknownDescriptorSuffix Suffix

definition packageDescriptor :: "string \<Rightarrow> Descriptor" where
  "packageDescriptor nm = \<lparr>name = nm, suffix = Suffix.Package, disambiguator = []\<rparr>"

definition typeDescriptor :: "string \<Rightarrow> Descriptor" where
  "typeDescriptor nm = \<lparr>name = nm, suffix = Suffix.Type, disambiguator = []\<rparr>"

definition termDescriptor :: "string \<Rightarrow> Descriptor" where
  "termDescriptor nm = \<lparr>name = nm, suffix = Suffix.Term, disambiguator = []\<rparr>"

definition metaDescriptor :: "string \<Rightarrow> Descriptor" where
  "metaDescriptor nm = \<lparr>name = nm, suffix = Suffix.Meta, disambiguator = []\<rparr>"

definition methodDescriptor :: "string \<Rightarrow> Descriptor" where
  "methodDescriptor nm = \<lparr>name = nm, suffix = Suffix.Method, disambiguator = []\<rparr>"

definition parameterDescriptor :: "string \<Rightarrow> Descriptor" where
  "parameterDescriptor nm = \<lparr>name = nm, suffix = Suffix.Parameter, disambiguator = []\<rparr>"

definition typeParameterDescriptor :: "string \<Rightarrow> Descriptor" where
  "typeParameterDescriptor nm =
     \<lparr>name = nm, suffix = Suffix.TypeParameter, disambiguator = []\<rparr>"

text \<open>
  \<open>isSimpleIdentifier\<close> is the test of the regular expression
  \<^verbatim>\<open>/^[\w$+-]+$/i\<close>: one or more characters, each a letter, a digit, an
  underscore, a dollar, a plus or a minus.
\<close>

definition isSimpleChar :: "char \<Rightarrow> bool" where
  "isSimpleChar c =
     (c \<in> set ''abcdefghijklmnopqrstuvwxyzABCDEFGHIJKLMNOPQRSTUVWXYZ0123456789_$+-'')"

definition isSimpleIdentifier :: "string \<Rightarrow> bool" where
  "isSimpleIdentifier nm = (nm \<noteq> [] \<and> list_all isSimpleChar nm)"

text \<open>\<open>replaceAll('`', '``')\<close>: every backtick becomes two.\<close>

fun doubleBackticks :: "string \<Rightarrow> string" where
  "doubleBackticks [] = []"
| "doubleBackticks (c # cs) =
     (if c = CHR 0x60 then CHR 0x60 # CHR 0x60 # doubleBackticks cs
      else c # doubleBackticks cs)"

definition escapedName :: "Descriptor \<Rightarrow> string" where
  "escapedName desc =
     (if name desc = [] then []
      else if isSimpleIdentifier (name desc) then name desc
      else CHR 0x60 # doubleBackticks (name desc) @ [CHR 0x60])"

definition descriptorString :: "Descriptor \<Rightarrow> indexer_error + string" where
  "descriptorString desc =
     (case suffix desc of
        Suffix.Package \<Rightarrow> Inr (escapedName desc @ ''/'')
      | Suffix.Type \<Rightarrow> Inr (escapedName desc @ ''#'')
      | Suffix.Term \<Rightarrow> Inr (escapedName desc @ ''.'')
      | Suffix.Meta \<Rightarrow> Inr (escapedName desc @ '':'')
      | Suffix.Method \<Rightarrow> Inr (escapedName desc @ ''('' @ disambiguator desc @ '').'')
      | Suffix.Parameter \<Rightarrow> Inr (''('' @ escapedName desc @ '')'')
      | Suffix.TypeParameter \<Rightarrow> Inr (''['' @ escapedName desc @ '']'')
      | UnspecifiedSuffix \<Rightarrow> Inl (UnknownDescriptorSuffix (suffix desc)))"

text \<open>
  The inverse of the escaping, in the words of the specification: strip the wrapping
  backticks and undouble the internal ones. The repository has no parser; this one is
  the reading side of the round trip only.
\<close>

fun undoubleBackticks :: "string \<Rightarrow> string" where
  "undoubleBackticks [] = []"
| "undoubleBackticks [c] = [c]"
| "undoubleBackticks (c # d # cs) =
     (if c = CHR 0x60 \<and> d = CHR 0x60 then CHR 0x60 # undoubleBackticks cs
      else c # undoubleBackticks (d # cs))"

definition spec_unescapeName :: "string \<Rightarrow> string" where
  "spec_unescapeName s =
     (case s of
        [] \<Rightarrow> []
      | c # cs \<Rightarrow> if c = CHR 0x60 then undoubleBackticks (butlast cs) else s)"

section \<open>Symbol identities and counters (LsifSymbol.ts, Counter.ts)\<close>

text \<open>
  Modelled from the spec: the class \<open>LsifSymbol\<close> (file LsifSymbol.ts) is not among
  the sources. The specification gives the identity as a tagged union: \<open>Empty\<close>,
  \<open>Local\<close> with a file-scoped index, or \<open>Global\<close> with the owner chain of
  descriptors; a \<open>Global\<close> built under an owner has the owner's chain plus the new
  descriptor. The specification gives no chain for a \<open>Local\<close> owner (the resolver
  never builds a global under one); \<open>ownerChain\<close> takes it as empty.
\<close>

datatype LsifSymbol =
    Empty
  | Local nat
  | Global "Descriptor list"

definition isEmpty :: "LsifSymbol \<Rightarrow> bool" where
  "isEmpty s = (case s of Empty \<Rightarrow> True | _ \<Rightarrow> False)"

definition isLocal :: "LsifSymbol \<Rightarrow> bool" where
  "isLocal s = (case s of Local i \<Rightarrow> True | _ \<Rightarrow> False)"

definition ownerChain :: "LsifSymbol \<Rightarrow> Descriptor list" where
  "ownerChain s = (case s of Global ds \<Rightarrow> ds | _ \<Rightarrow> [])"

definition global :: "LsifSymbol \<Rightarrow> Descriptor \<Rightarrow> LsifSymbol" where
  "global owner desc = Global (ownerChain owner @ [desc])"

text \<open>
  Modelled from the spec: the rendered symbol string. A global symbol string is the
  concatenation of the renderings of the chain's descriptors; a local one is a scope
  marker, a space and the decimal index; the empty identity renders as the empty
  string.
\<close>

definition digit :: "nat \<Rightarrow> char" where
  "digit n = ''0123456789'' ! (n mod 10)"

fun decimal :: "nat \<Rightarrow> string" where
  "decimal n = (if n < 10 then [digit n] else decimal (n div 10) @ [digit n])"

declare decimal.simps [simp del]

fun descriptorStrings :: "Descriptor list \<Rightarrow> indexer_error + string" where
  "descriptorStrings [] = Inr []"
| "descriptorStrings (d # ds) =
     (case descriptorString d of
        Inl e \<Rightarrow> Inl e
      | Inr s \<Rightarrow> (case descriptorStrings ds of Inl e \<Rightarrow> Inl e | Inr r \<Rightarrow> Inr (s @ r)))"

definition lsifValue :: "LsifSymbol \<Rightarrow> indexer_error + string" where
  "lsifValue s =
     (case s of
        Empty \<Rightarrow> Inr []
      | Local i \<Rightarrow> Inr (''local '' @ decimal i)
      | Global ds \<Rightarrow> descriptorStrings ds)"

text \<open>
  Modelled from the spec: the class \<open>Counter\<close> (file Counter.ts) is not among the
  sources. A counter is a monotonic sequence of integers from zero; its state is the
  integer it hands out next.
\<close>

type_synonym Counter = nat

definition Counter_new :: Counter where
  "Counter_new = 0"

definition Counter_next :: "Counter \<Rightarrow> nat \<times> Counter" where
  "Counter_next c = (c, Suc c)"

section \<open>The syntax tree and the collaborators\<close>

text \<open>
  A node of the TypeScript tree is a handle (its identity, the key of the symbol
  tables); what the indexer reads of a node is its kind and, where the kind has one,
  its \<open>name\<close> child: the child's handle and its source text (\<open>getText()\<close>). The
  name is optional exactly where TypeScript's node types make it so. Kinds the
  indexer does not tell apart are \<open>OtherNode\<close>.
\<close>

type_synonym nid = nat
type_synonym sid = nat

datatype Name = Name (nameNode: nid) (getText: string)

datatype Node =
    Identifier
  | Block
  | SourceFile string
  | PropertyAssignment Name
  | ShorthandPropertyAssignment Name
  | ModuleBlock
  | ImportDeclaration
  | ImportClause
  | NamedImports
  | VariableStatement
  | VariableDeclarationList
  | ImportSpecifier
  | InterfaceDeclaration Name
  | EnumDeclaration Name
  | ClassDeclaration "Name option"
  | ClassExpression "Name option"
  | FunctionDeclaration "Name option"
  | MethodSignature Name
  | MethodDeclaration Name
  | ConstructorDeclaration
  | PropertyDeclaration Name
  | PropertySignature Name
  | EnumMember Name
  | VariableDeclaration Name
  | ModuleDeclaration Name
  | ParameterDeclaration Name
  | TypeParameterDeclaration Name
  | OtherNode

text \<open>
  The program being indexed, as the indexer sees it: the tree (\<open>nodes\<close>,
  \<open>parent\<close>, \<open>children\<close> in the order of \<open>ts.forEachChild\<close>,
  \<open>getSourceFile\<close>), the type checker's answers (\<open>getSymbolAtLocation\<close>, a
  symbol's \<open>declarations\<close>, \<open>getShorthandAssignmentValueSymbol\<close>, the
  declarations of the symbol of a node's type, the printed type, the documentation
  comment), the package of a file (\<open>packages.symbol\<close>) and the range of a node
  (\<open>Range.fromNode(node).toLsif()\<close>). The parent of a source file is never read.
\<close>

record Program =
  nodes :: "nid \<Rightarrow> Node"
  parent :: "nid \<Rightarrow> nid"
  children :: "nid \<Rightarrow> nid list"
  getSourceFile :: "nid \<Rightarrow> nid"
  getSymbolAtLocation :: "nid \<Rightarrow> sid option"
  declarations :: "sid \<Rightarrow> nid list"
  getShorthandAssignmentValueSymbol :: "nid \<Rightarrow> sid option"
  typeSymbolDeclarations :: "nid \<Rightarrow> nid list"
  typeToString :: "nid \<Rightarrow> string"
  documentationComment :: "sid \<Rightarrow> string"
  packages_symbol :: "string \<Rightarrow> LsifSymbol option"
  rangeOf :: "nid \<Rightarrow> int list"

section \<open>The file indexer (FileIndexer.ts)\<close>

record Occurrence =
  occ_range :: "int list"
  symbol :: string
  symbol_roles :: int

record SymbolInformation =
  info_symbol :: string
  documentation :: "string list"

record Document =
  occurrences :: "Occurrence list"
  symbols :: "SymbolInformation list"

record FileIndexer =
  localCounter :: Counter
  propertyCounters :: "string \<rightharpoonup> Counter"
  localSymbolTable :: "nid \<rightharpoonup> LsifSymbol"
  globalSymbolTable :: "nid \<rightharpoonup> LsifSymbol"
  document :: Document

definition SymbolRole_Definition :: int where
  "SymbolRole_Definition = 1"

definition declarationName :: "Node \<Rightarrow> nid option" where
  "declarationName nd =
     (case nd of
        EnumDeclaration nm \<Rightarrow> Some (nameNode nm)
      | VariableDeclaration nm \<Rightarrow> Some (nameNode nm)
      | PropertyDeclaration nm \<Rightarrow> Some (nameNode nm)
      | MethodSignature nm \<Rightarrow> Some (nameNode nm)
      | MethodDeclaration nm \<Rightarrow> Some (nameNode nm)
      | PropertySignature nm \<Rightarrow> Some (nameNode nm)
      | FunctionDeclaration nmo \<Rightarrow> map_option nameNode nmo
      | ModuleDeclaration nm \<Rightarrow> Some (nameNode nm)
      | PropertyAssignment nm \<Rightarrow> Some (nameNode nm)
      | ShorthandPropertyAssignment nm \<Rightarrow> Some (nameNode nm)
      | ParameterDeclaration nm \<Rightarrow> Some (nameNode nm)
      | TypeParameterDeclaration nm \<Rightarrow> Some (nameNode nm)
      | InterfaceDeclaration nm \<Rightarrow> Some (nameNode nm)
      | _ \<Rightarrow> None)"

text \<open>
  \<open>node.name?.getText()\<close> followed by \<open>if (name)\<close>: a descriptor only for a name
  that is there and whose text is not empty.
\<close>

definition namedDescriptor ::
  "(string \<Rightarrow> Descriptor) \<Rightarrow> Name option \<Rightarrow> Descriptor option" where
  "namedDescriptor mk nmo =
     (case nmo of
        None \<Rightarrow> None
      | Some nm \<Rightarrow> if getText nm \<noteq> [] then Some (mk (getText nm)) else None)"

fun descriptor :: "Node \<Rightarrow> Descriptor option" where
  "descriptor (InterfaceDeclaration nm) = Some (typeDescriptor (getText nm))"
| "descriptor (EnumDeclaration nm) = Some (typeDescriptor (getText nm))"
| "descriptor (ClassDeclaration nmo) = namedDescriptor typeDescriptor nmo"
| "descriptor (ClassExpression nmo) = namedDescriptor typeDescriptor nmo"
| "descriptor (FunctionDeclaration nmo) = namedDescriptor methodDescriptor nmo"
| "descriptor (MethodSignature nm) = namedDescriptor methodDescriptor (Some nm)"
| "descriptor (MethodDeclaration nm) = namedDescriptor methodDescriptor (Some nm)"
| "descriptor ConstructorDeclaration = Some (methodDescriptor ''<constructor>'')"
| "descriptor (PropertyDeclaration nm) = Some (termDescriptor (getText nm))"
| "descriptor (PropertySignature nm) = Some (termDescriptor (getText nm))"
| "descriptor (EnumMember nm) = Some (termDescriptor (getText nm))"
| "descriptor (VariableDeclaration nm) = Some (termDescriptor (getText nm))"
| "descriptor (ModuleDeclaration nm) = Some (packageDescriptor (getText nm))"
| "descriptor (ParameterDeclaration nm) = Some (parameterDescriptor (getText nm))"
| "descriptor (TypeParameterDeclaration nm) = Some (typeParameterDescriptor (getText nm))"
| "descriptor _ = None"

definition isAnonymousContainerOfSymbols :: "Node \<Rightarrow> bool" where
  "isAnonymousContainerOfSymbols nd =
     (case nd of
        ModuleBlock \<Rightarrow> True
      | ImportDeclaration \<Rightarrow> True
      | ImportClause \<Rightarrow> True
      | NamedImports \<Rightarrow> True
      | VariableStatement \<Rightarrow> True
      | VariableDeclarationList \<Rightarrow> True
      | _ \<Rightarrow> False)"

definition fromCache :: "FileIndexer \<Rightarrow> nid \<Rightarrow> LsifSymbol option" where
  "fromCache st n =
     (case globalSymbolTable st n of
        Some s \<Rightarrow> Some s
      | None \<Rightarrow> localSymbolTable st n)"

definition newLocalSymbol :: "nid \<Rightarrow> FileIndexer \<Rightarrow> LsifSymbol \<times> FileIndexer" where
  "newLocalSymbol n st =
     (case Counter_next (localCounter st) of
        (i, c) \<Rightarrow>
          (Local i,
           st\<lparr>localCounter := c, localSymbolTable := (localSymbolTable st)(n \<mapsto> Local i)\<rparr>))"

definition cached :: "nid \<Rightarrow> LsifSymbol \<Rightarrow> FileIndexer \<Rightarrow> LsifSymbol \<times> FileIndexer" where
  "cached n s st = (s, st\<lparr>globalSymbolTable := (globalSymbolTable st)(n \<mapsto> s)\<rparr>)"

text \<open>
  The counter of a property name: the one stored under the name, a new one when there
  is none. \<open>lsifSymbol\<close> fetches (or creates and stores) the \<open>Counter\<close> object
  before it resolves the source file and calls \<open>next()\<close> on it afterwards.
\<close>

definition propertyCounter :: "FileIndexer \<Rightarrow> string \<Rightarrow> Counter" where
  "propertyCounter st nm =
     (case propertyCounters st nm of None \<Rightarrow> Counter_new | Some c \<Rightarrow> c)"

definition setPropertyCounter :: "string \<Rightarrow> Counter \<Rightarrow> FileIndexer \<Rightarrow> FileIndexer" where
  "setPropertyCounter nm c st = st\<lparr>propertyCounters := (propertyCounters st)(nm \<mapsto> c)\<rparr>"

definition propertyName :: "Node \<Rightarrow> Name option" where
  "propertyName nd =
     (case nd of
        PropertyAssignment nm \<Rightarrow> Some nm
      | ShorthandPropertyAssignment nm \<Rightarrow> Some nm
      | _ \<Rightarrow> None)"

definition sourceFileName :: "Node \<Rightarrow> string option" where
  "sourceFileName nd = (case nd of SourceFile f \<Rightarrow> Some f | _ \<Rightarrow> None)"

text \<open>
  The resolver. Its recursion follows the parent, the source file of a property
  assignment and the declaration an import specifier stands for, and nothing in the
  code bounds it; the first argument is the depth it may reach, and \<open>None\<close> means
  the depth was not enough.
\<close>

fun lsifSymbol ::
  "nat \<Rightarrow> Program \<Rightarrow> FileIndexer \<Rightarrow> nid \<Rightarrow> (LsifSymbol \<times> FileIndexer) option" where
  "lsifSymbol 0 P st n = None"
| "lsifSymbol (Suc k) P st n =
     (case fromCache st n of
        Some s \<Rightarrow> Some (s, st)
      | None \<Rightarrow>
          if nodes P n = Block then Some (Empty, st)
          else
            (case sourceFileName (nodes P n) of
               Some f \<Rightarrow>
                 (case packages_symbol P f of
                    None \<Rightarrow> Some (cached n Empty st)
                  | Some package \<Rightarrow> Some (cached n package st))
             | None \<Rightarrow>
                 (case propertyName (nodes P n) of
                    Some nm \<Rightarrow>
                      (case lsifSymbol k P
                              (setPropertyCounter (getText nm)
                                 (propertyCounter st (getText nm)) st)
                              (getSourceFile P n) of
                         None \<Rightarrow> None
                       | Some (file, st1) \<Rightarrow>
                           (case Counter_next (propertyCounter st1 (getText nm)) of
                              (i, c) \<Rightarrow>
                                Some (cached n
                                  (global file (metaDescriptor (getText nm @ decimal i)))
                                  (setPropertyCounter (getText nm) c st1))))
                  | None \<Rightarrow>
                      (case lsifSymbol k P st (parent P n) of
                         None \<Rightarrow> None
                       | Some (owner, st1) \<Rightarrow>
                           if isEmpty owner \<or> isLocal owner then Some (newLocalSymbol n st1)
                           else if isAnonymousContainerOfSymbols (nodes P n) then
                             (case lsifSymbol k P st1 (parent P n) of
                                None \<Rightarrow> None
                              | Some (s, st2) \<Rightarrow> Some (cached n s st2))
                           else
                             (case (if nodes P n = ImportSpecifier
                                    then typeSymbolDeclarations P n else []) of
                                d # ds \<Rightarrow> lsifSymbol k P st1 d
                              | [] \<Rightarrow>
                                  (case descriptor (nodes P n) of
                                     Some desc \<Rightarrow> Some (cached n (global owner desc) st1)
                                   | None \<Rightarrow> Some (newLocalSymbol n st1)))))))"

definition pushOccurrence :: "Occurrence \<Rightarrow> FileIndexer \<Rightarrow> FileIndexer" where
  "pushOccurrence occ st =
     st\<lparr>document := (document st)\<lparr>occurrences := occurrences (document st) @ [occ]\<rparr>\<rparr>"

definition addSymbolInformation ::
  "Program \<Rightarrow> nid \<Rightarrow> sid \<Rightarrow> string \<Rightarrow> FileIndexer \<Rightarrow> FileIndexer" where
  "addSymbolInformation P node symb v st =
     st\<lparr>document := (document st)\<lparr>symbols := symbols (document st) @
        [\<lparr>info_symbol = v,
          documentation =
            [''```ts'' @ [CHR 0x0A] @ typeToString P node @ [CHR 0x0A] @ ''```'',
             documentationComment P symb]\<rparr>]\<rparr>\<rparr>"

fun shorthandValueOccurrences ::
  "nat \<Rightarrow> Program \<Rightarrow> int list \<Rightarrow> nid list \<Rightarrow> FileIndexer \<Rightarrow>
   (indexer_error + FileIndexer) option" where
  "shorthandValueOccurrences k P rng [] st = Some (Inr st)"
| "shorthandValueOccurrences k P rng (d # ds) st =
     (case lsifSymbol k P st d of
        None \<Rightarrow> None
      | Some (s, st1) \<Rightarrow>
          if isEmpty s then shorthandValueOccurrences k P rng ds st1
          else
            (case lsifValue s of
               Inl e \<Rightarrow> Some (Inl e)
             | Inr v \<Rightarrow>
                 shorthandValueOccurrences k P rng ds
                   (pushOccurrence \<lparr>occ_range = rng, symbol = v, symbol_roles = 0\<rparr> st1)))"

definition handleShorthandPropertyDefinition ::
  "nat \<Rightarrow> Program \<Rightarrow> nid \<Rightarrow> int list \<Rightarrow> FileIndexer \<Rightarrow>
   (indexer_error + FileIndexer) option" where
  "handleShorthandPropertyDefinition k P decl rng st =
     (case nodes P decl of
        ShorthandPropertyAssignment nm \<Rightarrow>
          (case getShorthandAssignmentValueSymbol P decl of
             None \<Rightarrow> Some (Inr st)
           | Some valueSymbol \<Rightarrow>
               shorthandValueOccurrences k P rng (declarations P valueSymbol) st)
      | _ \<Rightarrow> Some (Inr st))"

fun identifierOccurrences ::
  "nat \<Rightarrow> Program \<Rightarrow> nid \<Rightarrow> sid \<Rightarrow> int list \<Rightarrow> bool \<Rightarrow> int \<Rightarrow> nid list \<Rightarrow>
   FileIndexer \<Rightarrow> (indexer_error + FileIndexer) option" where
  "identifierOccurrences k P identifier symb rng isDefinition role [] st = Some (Inr st)"
| "identifierOccurrences k P identifier symb rng isDefinition role (d # ds) st =
     (case lsifSymbol k P st d of
        None \<Rightarrow> None
      | Some (s, st1) \<Rightarrow>
          if isEmpty s then
            identifierOccurrences k P identifier symb rng isDefinition role ds st1
          else
            (case lsifValue s of
               Inl e \<Rightarrow> Some (Inl e)
             | Inr v \<Rightarrow>
                 (let st2 =
                    pushOccurrence \<lparr>occ_range = rng, symbol = v, symbol_roles = role\<rparr> st1
                  in if isDefinition then
                       (case handleShorthandPropertyDefinition k P d rng
                               (addSymbolInformation P identifier symb v st2) of
                          None \<Rightarrow> None
                        | Some (Inl e) \<Rightarrow> Some (Inl e)
                        | Some (Inr st3) \<Rightarrow>
                            identifierOccurrences k P identifier symb rng isDefinition role
                              ds st3)
                     else
                       identifierOccurrences k P identifier symb rng isDefinition role
                         ds st2)))"

definition visitIdentifier ::
  "nat \<Rightarrow> Program \<Rightarrow> nid \<Rightarrow> sid \<Rightarrow> FileIndexer \<Rightarrow> (indexer_error + FileIndexer) option" where
  "visitIdentifier k P identifier symb st =
     (let rng = rangeOf P identifier;
          isDefinition = (declarationName (nodes P (parent P identifier)) = Some identifier);
          role = (if isDefinition then 0 OR SymbolRole_Definition else 0)
      in identifierOccurrences k P identifier symb rng isDefinition role
           (declarations P symb) st)"

fun forEachChild ::
  "(nid \<Rightarrow> FileIndexer \<Rightarrow> (indexer_error + FileIndexer) option) \<Rightarrow> nid list \<Rightarrow>
   FileIndexer \<Rightarrow> (indexer_error + FileIndexer) option" where
  "forEachChild f [] st = Some (Inr st)"
| "forEachChild f (c # cs) st =
     (case f c st of
        None \<Rightarrow> None
      | Some (Inl e) \<Rightarrow> Some (Inl e)
      | Some (Inr st1) \<Rightarrow> forEachChild f cs st1)"

fun visit ::
  "nat \<Rightarrow> Program \<Rightarrow> nid \<Rightarrow> FileIndexer \<Rightarrow> (indexer_error + FileIndexer) option" where
  "visit 0 P node st = None"
| "visit (Suc k) P node st =
     (case (if nodes P node = Identifier then
              (case getSymbolAtLocation P node of
                 Some symb \<Rightarrow> visitIdentifier k P node symb st
               | None \<Rightarrow> Some (Inr st))
            else Some (Inr st)) of
        None \<Rightarrow> None
      | Some (Inl e) \<Rightarrow> Some (Inl e)
      | Some (Inr st1) \<Rightarrow> forEachChild (\<lambda>c s. visit k P c s) (children P node) st1)"

definition index :: "nat \<Rightarrow> Program \<Rightarrow> nid \<Rightarrow> FileIndexer \<Rightarrow> (indexer_error + FileIndexer) option" where
  "index k P sourceFile st = visit k P sourceFile st"

definition newFileIndexer :: "(nid \<rightharpoonup> LsifSymbol) \<Rightarrow> FileIndexer" where
  "newFileIndexer globalTable =
     \<lparr>localCounter = Counter_new, propertyCounters = Map.empty,
      localSymbolTable = Map.empty, globalSymbolTable = globalTable,
      document = \<lparr>occurrences = [], symbols = []\<rparr>\<rparr>"

section \<open>Notions the statements use\<close>

text \<open>
  Resolving a list of nodes one after the other, each from the state the one before
  left: what a file's traversal does between two resolutions of a node.
\<close>

fun resolveAll ::
  "nat \<Rightarrow> Program \<Rightarrow> FileIndexer \<Rightarrow> nid list \<Rightarrow> (LsifSymbol list \<times> FileIndexer) option" where
  "resolveAll k P st [] = Some ([], st)"
| "resolveAll k P st (n # ns) =
     (case lsifSymbol k P st n of
        None \<Rightarrow> None
      | Some (s, st1) \<Rightarrow>
          (case resolveAll k P st1 ns of
             None \<Rightarrow> None
           | Some (ss, st2) \<Rightarrow> Some (s # ss, st2)))"

text \<open>
  The state \<open>st'\<close> has the occurrences of \<open>st\<close> and then more, all at the
  range \<open>rng\<close>.
\<close>

definition emitsAt :: "int list \<Rightarrow> FileIndexer \<Rightarrow> FileIndexer \<Rightarrow> bool" where
  "emitsAt rng st st' =
     (\<exists>new. occurrences (document st') = occurrences (document st) @ new \<and>
        list_all (\<lambda>occ. occ_range occ = rng) new)"

text \<open>
  The nodes the resolver may go on to resolve while it resolves \<open>n\<close>: none for a
  block or a source file, the source file for a property assignment, and otherwise the
  parent and, for an import specifier, the first declaration of its type's symbol. The
  program is well founded when some rank decreases along them, as it does in a syntax
  tree whose import specifiers do not stand for declarations that depend on them.
\<close>

definition dependencies :: "Program \<Rightarrow> nid \<Rightarrow> nid list" where
  "dependencies P n =
     (if nodes P n = Block \<or> sourceFileName (nodes P n) \<noteq> None then []
      else if propertyName (nodes P n) \<noteq> None then [getSourceFile P n]
      else parent P n #
        (if nodes P n = ImportSpecifier then take 1 (typeSymbolDeclarations P n) else []))"

definition wellFounded :: "Program \<Rightarrow> (nid \<Rightarrow> nat) \<Rightarrow> bool" where
  "wellFounded P rank = (\<forall>n. list_all (\<lambda>d. rank d < rank n) (dependencies P n))"

text \<open>
  What a resolution of \<open>n\<close> returns without changing the state, when there is such
  an answer: the cached identity, \<open>Empty\<close> for a block, and for an import specifier
  with no entry, under an owner that is settled and global, the settled identity of
  the declaration it stands for.
\<close>

fun settled :: "nat \<Rightarrow> Program \<Rightarrow> FileIndexer \<Rightarrow> nid \<Rightarrow> LsifSymbol option" where
  "settled 0 P st n = None"
| "settled (Suc k) P st n =
     (case fromCache st n of
        Some s \<Rightarrow> Some s
      | None \<Rightarrow>
          if nodes P n = Block then Some Empty
          else if nodes P n = ImportSpecifier then
            (case settled k P st (parent P n) of
               None \<Rightarrow> None
             | Some owner \<Rightarrow>
                 if isEmpty owner \<or> isLocal owner then None
                 else
                   (case typeSymbolDeclarations P n of
                      [] \<Rightarrow> None
                    | d # ds \<Rightarrow> settled k P st d))
          else None)"

text \<open>
  A descriptor as the indexer builds them: of a known kind, with no disambiguator, and
  with a name when it is a Method. An identity is plain when its chain holds such
  descriptors only; the packages are plain when every package symbol is, the tables
  when every identity in them is (an empty table is).
\<close>

definition plainDescriptor :: "Descriptor \<Rightarrow> bool" where
  "plainDescriptor d =
     (disambiguator d = [] \<and> suffix d \<noteq> UnspecifiedSuffix \<and>
      \<not> (suffix d = Suffix.Method \<and> name d = []))"

definition plainSymbol :: "LsifSymbol \<Rightarrow> bool" where
  "plainSymbol s = list_all plainDescriptor (ownerChain s)"


definition plainTables :: "FileIndexer \<Rightarrow> bool" where
  "plainTables st =
     (\<forall>n. (case globalSymbolTable st n of None \<Rightarrow> True | Some s \<Rightarrow> plainSymbol s) \<and>
          (case localSymbolTable st n of None \<Rightarrow> True | Some s \<Rightarrow> plainSymbol s))"






text \<open>The string \<open>s\<close> ends with the string \<open>t\<close>.\<close>

definition endsWith :: "string \<Rightarrow> string \<Rightarrow> bool" where
  "endsWith s t = (length t \<le> length s \<and> drop (length s - length t) s = t)"

section \<open>Example programs\<close>

text \<open>
  A program given by lists: the nodes in the order of their handles, each with its
  parent and children; the symbol at each identifier; the declarations of each symbol;
  the value symbols of shorthand properties; the ranges of the identifiers. Node 0 is
  the source file of every node, and the package is the same for every file.
\<close>

definition listProgram ::
  "(Node \<times> nid \<times> nid list) list \<Rightarrow> (nid \<times> sid) list \<Rightarrow> nid list list \<Rightarrow>
   (nid \<times> sid) list \<Rightarrow> (nid \<times> int list) list \<Rightarrow> LsifSymbol option \<Rightarrow> Program" where
  "listProgram tree symbolAt decls shorthand ranges package =
     \<lparr>nodes = (\<lambda>n. if n < length tree then fst (tree ! n) else OtherNode),
      parent = (\<lambda>n. if n < length tree then fst (snd (tree ! n)) else 0),
      children = (\<lambda>n. if n < length tree then snd (snd (tree ! n)) else []),
      getSourceFile = (\<lambda>n. 0),
      getSymbolAtLocation = map_of symbolAt,
      declarations = (\<lambda>s. if s < length decls then decls ! s else []),
      getShorthandAssignmentValueSymbol = map_of shorthand,
      typeSymbolDeclarations = (\<lambda>n. []),
      typeToString = (\<lambda>n. []),
      documentationComment = (\<lambda>s. []),
      packages_symbol = (\<lambda>f. package),
      rangeOf = (\<lambda>n. case map_of ranges n of Some r \<Rightarrow> r | None \<Rightarrow> [])\<rparr>"

text \<open>
  \<^verbatim>\<open>const a = 1; const b = { a }\<close>: node 3 declares \<open>a\<close>, node 8 declares
  \<open>b\<close>, node 11 is the shorthand property and node 12 its identifier, whose value
  symbol is the variable \<open>a\<close>.
\<close>

definition shorthandProgram :: "LsifSymbol option \<Rightarrow> Program" where
  "shorthandProgram package =
     listProgram
       [(SourceFile ''a.ts'', 0, [1, 6]),
        (VariableStatement, 0, [2]),
        (VariableDeclarationList, 1, [3]),
        (VariableDeclaration (Name 4 ''a''), 2, [4, 5]),
        (Identifier, 3, []),
        (OtherNode, 3, []),
        (VariableStatement, 0, [7]),
        (VariableDeclarationList, 6, [8]),
        (VariableDeclaration (Name 9 ''b''), 7, [9, 10]),
        (Identifier, 8, []),
        (OtherNode, 8, [11]),
        (ShorthandPropertyAssignment (Name 12 ''a''), 10, [12]),
        (Identifier, 11, [])]
       [(4, 0), (9, 1), (12, 2)]
       [[3], [8], [11]]
       [(11, 0)]
       [(4, [0, 6, 7]), (9, [0, 19, 20]), (12, [0, 25, 26])]
       package"


text \<open>
  \<^verbatim>\<open>class C { constructor() {} }\<close>: node 1 is the class, node 2 its name,
  node 3 the constructor.
\<close>

definition classProgram :: "LsifSymbol option \<Rightarrow> Program" where
  "classProgram package =
     listProgram
       [(SourceFile ''c.ts'', 0, [1]),
        (ClassDeclaration (Some (Name 2 ''C'')), 0, [2, 3]),
        (Identifier, 1, []),
        (ConstructorDeclaration, 1, [4]),
        (Block, 3, [])]
       [(2, 0)]
       [[1]]
       []
       [(2, [0, 6, 7])]
       package"

text \<open>
  \<^verbatim>\<open>function f() { { let x } }\<close>: node 1 is the function, node 3 its body,
  node 4 the block nested in the body, node 7 the declaration of \<open>x\<close>.
\<close>

definition blockProgram :: "LsifSymbol option \<Rightarrow> Program" where
  "blockProgram package =
     listProgram
       [(SourceFile ''f.ts'', 0, [1]),
        (FunctionDeclaration (Some (Name 2 ''f'')), 0, [2, 3]),
        (Identifier, 1, []),
        (Block, 1, [4]),
        (Block, 3, [5]),
        (VariableStatement, 4, [6]),
        (VariableDeclarationList, 5, [7]),
        (VariableDeclaration (Name 8 ''x''), 6, [8]),
        (Identifier, 7, [])]
       [(2, 0), (8, 1)]
       [[1], [7]]
       []
       [(2, [0, 9, 10]), (8, [0, 21, 22])]
       package"



text \<open>The package symbol of the examples: one Package descriptor.\<close>

definition examplePackage :: LsifSymbol where
  "examplePackage = Global [packageDescriptor ''pkg'']"



section \<open>The codec: escaping round trip\<close>

lemma undouble_other: "c \<noteq> CHR 0x60 \<Longrightarrow> undoubleBackticks (c # r) = c # undoubleBackticks r"
  by (cases r) simp_all

lemma undouble_double: "undoubleBackticks (doubleBackticks s) = s"
  by (induction s) (simp_all add: undouble_other)

lemma backtick_not_simple: "\<not> isSimpleChar (CHR 0x60)"
  by (simp add: isSimpleChar_def)

text \<open>
  C3. Escaping a name (verbatim when simple, backtick-wrapped with doubled backticks
  otherwise, empty when empty) and reading the escaped form back recovers the name,
  for every name.
\<close>

theorem escapedName_round_trip:
  "spec_unescapeName (escapedName (d\<lparr>name := nm\<rparr>)) = nm"
proof (cases nm)
  case Nil
  then show ?thesis by (simp add: escapedName_def spec_unescapeName_def)
next
  case (Cons c cs)
  show ?thesis
  proof (cases "isSimpleIdentifier nm")
    case True
    with Cons have "c \<noteq> CHR 0x60"
      using backtick_not_simple by (auto simp: isSimpleIdentifier_def)
    with True Cons show ?thesis
      by (simp add: escapedName_def spec_unescapeName_def)
  next
    case False
    have "butlast (doubleBackticks nm @ [CHR 0x60]) = doubleBackticks nm"
      by simp
    with False Cons show ?thesis
      by (simp add: escapedName_def spec_unescapeName_def undouble_double
               del: doubleBackticks.simps)
  qed
qed


section \<open>The resolver, step by step\<close>

lemma endsWith_append: "endsWith (p @ t) t"
  by (simp add: endsWith_def)

lemma lsifSymbol_hit:
  "fromCache st n = Some s \<Longrightarrow> lsifSymbol (Suc k) P st n = Some (s, st)"
  by simp

lemma lsifSymbol_block:
  "fromCache st n = None \<Longrightarrow> nodes P n = Block \<Longrightarrow> lsifSymbol (Suc k) P st n = Some (Empty, st)"
  by simp

lemma lsifSymbol_sourceFile:
  "fromCache st n = None \<Longrightarrow> nodes P n = SourceFile f \<Longrightarrow>
   lsifSymbol (Suc k) P st n =
     Some (cached n (case packages_symbol P f of None \<Rightarrow> Empty | Some p \<Rightarrow> p) st)"
  by (simp add: sourceFileName_def split: option.split)

lemma lsifSymbol_owner_local:
  "fromCache st n = None \<Longrightarrow> nodes P n \<noteq> Block \<Longrightarrow> sourceFileName (nodes P n) = None \<Longrightarrow>
   propertyName (nodes P n) = None \<Longrightarrow> lsifSymbol k P st (parent P n) = Some (owner, st1) \<Longrightarrow>
   isEmpty owner \<or> isLocal owner \<Longrightarrow>
   lsifSymbol (Suc k) P st n = Some (newLocalSymbol n st1)"
  by simp

lemma lsifSymbol_descriptor:
  "fromCache st n = None \<Longrightarrow> nodes P n \<noteq> Block \<Longrightarrow> sourceFileName (nodes P n) = None \<Longrightarrow>
   propertyName (nodes P n) = None \<Longrightarrow> lsifSymbol k P st (parent P n) = Some (owner, st1) \<Longrightarrow>
   \<not> isEmpty owner \<Longrightarrow> \<not> isLocal owner \<Longrightarrow> \<not> isAnonymousContainerOfSymbols (nodes P n) \<Longrightarrow>
   nodes P n \<noteq> ImportSpecifier \<Longrightarrow> descriptor (nodes P n) = Some desc \<Longrightarrow>
   lsifSymbol (Suc k) P st n = Some (cached n (global owner desc) st1)"
  by simp

lemma lsifSymbol_property:
  "fromCache st n = None \<Longrightarrow> propertyName (nodes P n) = Some nm \<Longrightarrow>
   lsifSymbol k P (setPropertyCounter (getText nm) (propertyCounter st (getText nm)) st)
     (getSourceFile P n) = Some (file, st1) \<Longrightarrow>
   lsifSymbol (Suc k) P st n =
     Some (cached n
       (global file (metaDescriptor (getText nm @ decimal (propertyCounter st1 (getText nm)))))
       (setPropertyCounter (getText nm) (Suc (propertyCounter st1 (getText nm))) st1))"
  by (auto simp: propertyName_def sourceFileName_def Counter_next_def split: Node.splits)

lemma lsifSymbol_file_step:
  "fromCache st n = None \<Longrightarrow> nodes P n \<noteq> Block \<Longrightarrow> sourceFileName (nodes P n) = Some f \<Longrightarrow>
   lsifSymbol (Suc k) P st n =
     Some (cached n (case packages_symbol P f of None \<Rightarrow> Empty | Some p \<Rightarrow> p) st)"
  by (simp split: option.split)

lemma lsifSymbol_property_None:
  "fromCache st n = None \<Longrightarrow> propertyName (nodes P n) = Some nm \<Longrightarrow>
   lsifSymbol k P (setPropertyCounter (getText nm) (propertyCounter st (getText nm)) st)
     (getSourceFile P n) = None \<Longrightarrow>
   lsifSymbol (Suc k) P st n = None"
  by (auto simp: propertyName_def sourceFileName_def split: Node.splits)

lemma lsifSymbol_owner_None:
  "fromCache st n = None \<Longrightarrow> nodes P n \<noteq> Block \<Longrightarrow> sourceFileName (nodes P n) = None \<Longrightarrow>
   propertyName (nodes P n) = None \<Longrightarrow> lsifSymbol k P st (parent P n) = None \<Longrightarrow>
   lsifSymbol (Suc k) P st n = None"
  by simp

lemma lsifSymbol_container_None:
  "fromCache st n = None \<Longrightarrow> nodes P n \<noteq> Block \<Longrightarrow> sourceFileName (nodes P n) = None \<Longrightarrow>
   propertyName (nodes P n) = None \<Longrightarrow> lsifSymbol k P st (parent P n) = Some (owner, st1) \<Longrightarrow>
   \<not> isEmpty owner \<Longrightarrow> \<not> isLocal owner \<Longrightarrow> isAnonymousContainerOfSymbols (nodes P n) \<Longrightarrow>
   lsifSymbol k P st1 (parent P n) = None \<Longrightarrow>
   lsifSymbol (Suc k) P st n = None"
  by simp

lemma lsifSymbol_container:
  "fromCache st n = None \<Longrightarrow> nodes P n \<noteq> Block \<Longrightarrow> sourceFileName (nodes P n) = None \<Longrightarrow>
   propertyName (nodes P n) = None \<Longrightarrow> lsifSymbol k P st (parent P n) = Some (owner, st1) \<Longrightarrow>
   \<not> isEmpty owner \<Longrightarrow> \<not> isLocal owner \<Longrightarrow> isAnonymousContainerOfSymbols (nodes P n) \<Longrightarrow>
   lsifSymbol k P st1 (parent P n) = Some (s, st2) \<Longrightarrow>
   lsifSymbol (Suc k) P st n = Some (cached n s st2)"
  by simp

lemma lsifSymbol_alias:
  "fromCache st n = None \<Longrightarrow> nodes P n \<noteq> Block \<Longrightarrow> sourceFileName (nodes P n) = None \<Longrightarrow>
   propertyName (nodes P n) = None \<Longrightarrow> lsifSymbol k P st (parent P n) = Some (owner, st1) \<Longrightarrow>
   \<not> isEmpty owner \<Longrightarrow> \<not> isLocal owner \<Longrightarrow> \<not> isAnonymousContainerOfSymbols (nodes P n) \<Longrightarrow>
   (if nodes P n = ImportSpecifier then typeSymbolDeclarations P n else []) = d # ds \<Longrightarrow>
   lsifSymbol (Suc k) P st n = lsifSymbol k P st1 d"
  by simp

lemma lsifSymbol_described:
  "fromCache st n = None \<Longrightarrow> nodes P n \<noteq> Block \<Longrightarrow> sourceFileName (nodes P n) = None \<Longrightarrow>
   propertyName (nodes P n) = None \<Longrightarrow> lsifSymbol k P st (parent P n) = Some (owner, st1) \<Longrightarrow>
   \<not> isEmpty owner \<Longrightarrow> \<not> isLocal owner \<Longrightarrow> \<not> isAnonymousContainerOfSymbols (nodes P n) \<Longrightarrow>
   (if nodes P n = ImportSpecifier then typeSymbolDeclarations P n else []) = [] \<Longrightarrow>
   descriptor (nodes P n) = Some desc \<Longrightarrow>
   lsifSymbol (Suc k) P st n = Some (cached n (global owner desc) st1)"
  by simp

lemma lsifSymbol_undescribed:
  "fromCache st n = None \<Longrightarrow> nodes P n \<noteq> Block \<Longrightarrow> sourceFileName (nodes P n) = None \<Longrightarrow>
   propertyName (nodes P n) = None \<Longrightarrow> lsifSymbol k P st (parent P n) = Some (owner, st1) \<Longrightarrow>
   \<not> isEmpty owner \<Longrightarrow> \<not> isLocal owner \<Longrightarrow> \<not> isAnonymousContainerOfSymbols (nodes P n) \<Longrightarrow>
   (if nodes P n = ImportSpecifier then typeSymbolDeclarations P n else []) = [] \<Longrightarrow>
   descriptor (nodes P n) = None \<Longrightarrow>
   lsifSymbol (Suc k) P st n = Some (newLocalSymbol n st1)"
  by simp

declare lsifSymbol.simps(2) [simp del]

lemma lsifSymbol_Suc_cases:
  assumes "lsifSymbol (Suc k) P st n = Some (s, st')"
  obtains
    (hit) "fromCache st n = Some s" "st' = st"
  | (block) "fromCache st n = None" "nodes P n = Block" "s = Empty" "st' = st"
  | (sourceFile) f where "fromCache st n = None" "nodes P n \<noteq> Block"
      "sourceFileName (nodes P n) = Some f"
      "(s, st') = cached n (case packages_symbol P f of None \<Rightarrow> Empty | Some p \<Rightarrow> p) st"
  | (propertyAssignment) nm fileSym st1 where "fromCache st n = None" "nodes P n \<noteq> Block"
      "sourceFileName (nodes P n) = None" "propertyName (nodes P n) = Some nm"
      "lsifSymbol k P (setPropertyCounter (getText nm) (propertyCounter st (getText nm)) st)
         (getSourceFile P n) = Some (fileSym, st1)"
      "(s, st') = cached n
         (global fileSym (metaDescriptor (getText nm @ decimal (propertyCounter st1 (getText nm)))))
         (setPropertyCounter (getText nm) (Suc (propertyCounter st1 (getText nm))) st1)"
  | (ownerless) owner st1 where "fromCache st n = None" "nodes P n \<noteq> Block"
      "sourceFileName (nodes P n) = None" "propertyName (nodes P n) = None"
      "lsifSymbol k P st (parent P n) = Some (owner, st1)" "isEmpty owner \<or> isLocal owner"
      "(s, st') = newLocalSymbol n st1"
  | (container) owner st1 st2 where "fromCache st n = None" "nodes P n \<noteq> Block"
      "sourceFileName (nodes P n) = None" "propertyName (nodes P n) = None"
      "lsifSymbol k P st (parent P n) = Some (owner, st1)" "\<not> isEmpty owner" "\<not> isLocal owner"
      "isAnonymousContainerOfSymbols (nodes P n)"
      "lsifSymbol k P st1 (parent P n) = Some (s, st2)" "(s, st') = cached n s st2"
  | (aliased) owner st1 d ds where "fromCache st n = None" "nodes P n \<noteq> Block"
      "sourceFileName (nodes P n) = None" "propertyName (nodes P n) = None"
      "lsifSymbol k P st (parent P n) = Some (owner, st1)" "\<not> isEmpty owner" "\<not> isLocal owner"
      "nodes P n = ImportSpecifier" "typeSymbolDeclarations P n = d # ds"
      "lsifSymbol k P st1 d = Some (s, st')"
  | (described) owner st1 desc where "fromCache st n = None" "nodes P n \<noteq> Block"
      "sourceFileName (nodes P n) = None" "propertyName (nodes P n) = None"
      "lsifSymbol k P st (parent P n) = Some (owner, st1)" "\<not> isEmpty owner" "\<not> isLocal owner"
      "nodes P n = ImportSpecifier \<longrightarrow> typeSymbolDeclarations P n = []"
      "(s, st') = cached n (global owner desc) st1"
      "descriptor (nodes P n) = Some desc"
  | (undescribed) owner st1 where "fromCache st n = None" "nodes P n \<noteq> Block"
      "sourceFileName (nodes P n) = None" "propertyName (nodes P n) = None"
      "lsifSymbol k P st (parent P n) = Some (owner, st1)" "\<not> isEmpty owner" "\<not> isLocal owner"
      "nodes P n = ImportSpecifier \<longrightarrow> typeSymbolDeclarations P n = []"
      "(s, st') = newLocalSymbol n st1"
      "descriptor (nodes P n) = None"
proof (cases "fromCache st n")
  case (Some c)
  from lsifSymbol_hit [OF Some, of k P] assms have "c = s" "st' = st" by simp_all
  with Some hit show ?thesis by simp
next
  case None
  show ?thesis
  proof (cases "nodes P n = Block")
    case True
    from lsifSymbol_block [OF None True, of k] assms have "s = Empty" "st' = st" by simp_all
    with None True block show ?thesis by simp
  next
    case notBlock: False
    show ?thesis
    proof (cases "sourceFileName (nodes P n)")
      case (Some f)
      from lsifSymbol_file_step [OF None notBlock Some, of k] assms
      have "(s, st') = cached n (case packages_symbol P f of None \<Rightarrow> Empty | Some p \<Rightarrow> p) st"
        by simp
      from sourceFile [OF None notBlock Some this] show ?thesis .
    next
      case noFile: None
      show ?thesis
      proof (cases "propertyName (nodes P n)")
        case (Some nm)
        let ?st0 = "setPropertyCounter (getText nm) (propertyCounter st (getText nm)) st"
        show ?thesis
        proof (cases "lsifSymbol k P ?st0 (getSourceFile P n)")
          case noResult: None
          from lsifSymbol_property_None [OF None Some noResult] assms show ?thesis by simp
        next
          case (Some r)
          obtain fileSym st1 where r: "r = (fileSym, st1)" by (cases r)
          from lsifSymbol_property [OF None \<open>propertyName (nodes P n) = Some nm\<close>
              Some [unfolded r]] assms
          have "(s, st') = cached n
             (global fileSym (metaDescriptor (getText nm @ decimal (propertyCounter st1 (getText nm)))))
             (setPropertyCounter (getText nm) (Suc (propertyCounter st1 (getText nm))) st1)"
            by simp
          from propertyAssignment [OF None notBlock noFile
              \<open>propertyName (nodes P n) = Some nm\<close> Some [unfolded r] this]
          show ?thesis .
        qed
      next
        case noProp: None
        show ?thesis
        proof (cases "lsifSymbol k P st (parent P n)")
          case noResult: None
          from lsifSymbol_owner_None [OF \<open>fromCache st n = None\<close> notBlock noFile noProp noResult]
            assms show ?thesis by simp
        next
          case (Some r)
          obtain owner st1 where r: "r = (owner, st1)" by (cases r)
          note o = Some [unfolded r]
          note pre = \<open>fromCache st n = None\<close> notBlock noFile noProp o
          show ?thesis
          proof (cases "isEmpty owner \<or> isLocal owner")
            case True
            from lsifSymbol_owner_local [OF pre True] assms
            have "(s, st') = newLocalSymbol n st1" by simp
            from ownerless [OF pre True this] show ?thesis .
          next
            case isGlobal: False
            then have g: "\<not> isEmpty owner" "\<not> isLocal owner" by simp_all
            show ?thesis
            proof (cases "isAnonymousContainerOfSymbols (nodes P n)")
              case True
              show ?thesis
              proof (cases "lsifSymbol k P st1 (parent P n)")
                case noSecond: None
                from lsifSymbol_container_None [OF pre g True noSecond] assms
                show ?thesis by simp
              next
                case (Some r2)
                obtain s2 st2 where r2: "r2 = (s2, st2)" by (cases r2)
                from lsifSymbol_container [OF pre g True Some [unfolded r2]] assms
                have e: "(s, st') = cached n s2 st2" by simp
                then have "s2 = s" by (simp add: cached_def)
                with e Some [unfolded r2]
                have "lsifSymbol k P st1 (parent P n) = Some (s, st2)" "(s, st') = cached n s st2"
                  by simp_all
                from container [OF pre g True this] show ?thesis .
              qed
            next
              case notContainer: False
              show ?thesis
              proof (cases "if nodes P n = ImportSpecifier then typeSymbolDeclarations P n else []")
                case (Cons d ds)
                then have i: "nodes P n = ImportSpecifier" "typeSymbolDeclarations P n = d # ds"
                  by (simp_all split: if_splits)
                from lsifSymbol_alias [OF pre g notContainer Cons] assms
                have "lsifSymbol k P st1 d = Some (s, st')" by simp
                from aliased [OF pre g i this] show ?thesis .
              next
                case Nil
                then have nil: "nodes P n = ImportSpecifier \<longrightarrow> typeSymbolDeclarations P n = []"
                  by (simp split: if_splits)
                show ?thesis
                proof (cases "descriptor (nodes P n)")
                  case (Some desc)
                  from lsifSymbol_described [OF pre g notContainer Nil Some] assms
                  have "(s, st') = cached n (global owner desc) st1" by simp
                  from described [OF pre g nil this Some] show ?thesis .
                next
                  case noDesc: None
                  from lsifSymbol_undescribed [OF pre g notContainer Nil noDesc] assms
                  have "(s, st') = newLocalSymbol n st1" by simp
                  from undescribed [OF pre g nil this noDesc] show ?thesis .
                qed
              qed
            qed
          qed
        qed
      qed
    qed
  qed
qed

lemma fromCache_setPropertyCounter [simp]:
  "fromCache (setPropertyCounter nm c st) n = fromCache st n"
  by (simp add: fromCache_def setPropertyCounter_def split: option.split)

lemma descriptorStrings_append:
  "descriptorStrings ds = Inr p \<Longrightarrow> descriptorStrings es = Inr q \<Longrightarrow>
   descriptorStrings (ds @ es) = Inr (p @ q)"
  by (induction ds arbitrary: p) (auto split: sum.splits)

lemma not_empty_local_Global:
  "\<not> isEmpty s \<Longrightarrow> \<not> isLocal s \<Longrightarrow> s = Global (ownerChain s)"
  by (cases s) (simp_all add: isEmpty_def isLocal_def ownerChain_def)

section \<open>Blocks\<close>

text \<open>
  C6 (amended). Resolving a block that has no cache entry returns the \<open>Empty\<close>
  identity and leaves the indexer's state as it was: the code returns before it
  reaches \<open>cached\<close>, so no entry is stored for the block in either table.
\<close>

theorem block_resolves_to_Empty_without_entry:
  "nodes P n = Block \<Longrightarrow> fromCache st n = None \<Longrightarrow>
   lsifSymbol (Suc k) P st n = Some (Empty, st)"
  using lsifSymbol_block by simp

theorem block_resolves_to_Empty_without_entry_witness:
  "nodes (blockProgram None) 4 = Block \<and> fromCache (newFileIndexer Map.empty) 4 = None \<and>
   lsifSymbol (Suc 0) (blockProgram None) (newFileIndexer Map.empty) 4 =
     Some (Empty, newFileIndexer Map.empty)"
proof -
  have a: "nodes (blockProgram None) 4 = Block" by code_simp
  have b: "fromCache (newFileIndexer Map.empty) 4 = None" by code_simp
  from block_resolves_to_Empty_without_entry [OF a b, of 0] a b show ?thesis by simp
qed

theorem block_not_cached_counterexample:
  "map_option (\<lambda>(s, st). (s, globalSymbolTable st 4))
     (lsifSymbol 10 (blockProgram (Some examplePackage)) (newFileIndexer Map.empty) 4) = Some (Empty, None)"
  by code_simp

text \<open>
  C5 (amended). A variable declared in a block (the declaration under its declaration
  list, under its variable statement, under the block, none of them with a cache
  entry) resolves to a fresh \<open>Local\<close> identity, and so do the statement and the
  list: the block resolves to \<open>Empty\<close>, and a node under an \<open>Empty\<close> or
  \<open>Local\<close> owner becomes local. Three local indices are handed out and the global
  table is not written; no Term descriptor is built.
\<close>

theorem variable_in_block_is_Local:
  assumes "nodes P b = Block" "fromCache st b = None"
    and "nodes P vs = VariableStatement" "parent P vs = b" "fromCache st vs = None"
    and "nodes P vl = VariableDeclarationList" "parent P vl = vs" "fromCache st vl = None"
    and "nodes P vd = VariableDeclaration nm" "parent P vd = vl" "fromCache st vd = None"
  shows "lsifSymbol (Suc (Suc (Suc (Suc k)))) P st vd =
     Some (Local (localCounter st + 2),
       st\<lparr>localCounter := localCounter st + 3,
          localSymbolTable := (localSymbolTable st)
            (vs \<mapsto> Local (localCounter st), vl \<mapsto> Local (localCounter st + 1),
             vd \<mapsto> Local (localCounter st + 2))\<rparr>)"
proof -
  have b: "lsifSymbol (Suc k) P st b = Some (Empty, st)"
    using assms(1,2) by (rule lsifSymbol_block[rotated])
  have "lsifSymbol (Suc (Suc k)) P st vs = Some (newLocalSymbol vs st)"
    using assms(3,4,5) b
    by (intro lsifSymbol_owner_local[where owner = Empty])
       (simp_all add: sourceFileName_def propertyName_def isEmpty_def)
  then have vs: "lsifSymbol (Suc (Suc k)) P st vs =
      Some (Local (localCounter st), snd (newLocalSymbol vs st))"
    by (simp add: newLocalSymbol_def Counter_next_def)
  have "lsifSymbol (Suc (Suc (Suc k))) P st vl = Some (newLocalSymbol vl (snd (newLocalSymbol vs st)))"
    using assms(6,7,8) vs
    by (intro lsifSymbol_owner_local[where owner = "Local (localCounter st)"])
       (simp_all add: sourceFileName_def propertyName_def isLocal_def)
  then have vl: "lsifSymbol (Suc (Suc (Suc k))) P st vl =
      Some (Local (Suc (localCounter st)), snd (newLocalSymbol vl (snd (newLocalSymbol vs st))))"
    by (simp add: newLocalSymbol_def Counter_next_def)
  have "lsifSymbol (Suc (Suc (Suc (Suc k)))) P st vd =
      Some (newLocalSymbol vd (snd (newLocalSymbol vl (snd (newLocalSymbol vs st)))))"
    using assms(9,10,11) vl
    by (intro lsifSymbol_owner_local[where owner = "Local (Suc (localCounter st))"])
       (simp_all add: sourceFileName_def propertyName_def isLocal_def)
  then show ?thesis
    by (simp add: newLocalSymbol_def Counter_next_def)
qed

theorem variable_in_block_is_Local_witness:
  "lsifSymbol (Suc (Suc (Suc (Suc 0)))) (blockProgram (Some examplePackage)) (newFileIndexer Map.empty) 7 =
     Some (Local (localCounter (newFileIndexer Map.empty) + 2),
       (newFileIndexer Map.empty)\<lparr>localCounter := localCounter (newFileIndexer Map.empty) + 3,
          localSymbolTable := (localSymbolTable (newFileIndexer Map.empty))
            (5 \<mapsto> Local (localCounter (newFileIndexer Map.empty)),
             6 \<mapsto> Local (localCounter (newFileIndexer Map.empty) + 1),
             7 \<mapsto> Local (localCounter (newFileIndexer Map.empty) + 2))\<rparr>)"
proof -
  have n: "nodes (blockProgram (Some examplePackage)) 4 = Block"
    "nodes (blockProgram (Some examplePackage)) 5 = VariableStatement"
    "nodes (blockProgram (Some examplePackage)) 6 = VariableDeclarationList"
    "nodes (blockProgram (Some examplePackage)) 7 = VariableDeclaration (Name 8 ''x'')"
    by code_simp+
  have p: "parent (blockProgram (Some examplePackage)) 5 = 4" "parent (blockProgram (Some examplePackage)) 6 = 5"
    "parent (blockProgram (Some examplePackage)) 7 = 6"
    by code_simp+
  have c: "fromCache (newFileIndexer Map.empty) 4 = None" "fromCache (newFileIndexer Map.empty) 5 = None"
    "fromCache (newFileIndexer Map.empty) 6 = None" "fromCache (newFileIndexer Map.empty) 7 = None"
    by code_simp+
  show ?thesis
    by (rule variable_in_block_is_Local [OF n(1) c(1) n(2) p(1) c(2) n(3) p(2) c(3) n(4) p(3) c(4)])
qed

theorem variable_in_block_not_Global_counterexample:
  "map_option fst (lsifSymbol 10 (blockProgram (Some examplePackage)) (newFileIndexer Map.empty) 1) =
     Some (Global [packageDescriptor ''pkg'', methodDescriptor ''f'']) \<and>
   map_option fst (lsifSymbol 10 (blockProgram (Some examplePackage)) (newFileIndexer Map.empty) 7) =
     Some (Local 2)"
  by code_simp

section \<open>Property assignments\<close>

text \<open>
  C10. A property assignment or shorthand property assignment with no cache entry
  resolves to a \<open>Global\<close> identity: the chain of its source file's symbol (the cached
  one, else the package of the file, else \<open>Empty\<close>) followed by a Meta descriptor
  named by the property's text and the next value of that name's counter. The parent is
  not looked at and no local index is handed out, so in a file with no package the
  identity is the Meta descriptor alone, not a \<open>Local\<close>.
\<close>

theorem property_assignment_global_under_file:
  assumes "propertyName (nodes P n) = Some nm" "fromCache st n = None"
    and "nodes P (getSourceFile P n) = SourceFile f"
  shows "map_option (\<lambda>(s, st'). (s, localCounter st')) (lsifSymbol (Suc (Suc k)) P st n) =
     Some (Global
             (ownerChain
                (case fromCache st (getSourceFile P n) of
                   Some s \<Rightarrow> s
                 | None \<Rightarrow> (case packages_symbol P f of None \<Rightarrow> Empty | Some p \<Rightarrow> p)) @
              [metaDescriptor (getText nm @ decimal (propertyCounter st (getText nm)))]),
           localCounter st)"
proof (cases "fromCache st (getSourceFile P n)")
  case None
  have "lsifSymbol (Suc k) P (setPropertyCounter (getText nm) (propertyCounter st (getText nm)) st)
      (getSourceFile P n) =
      Some (cached (getSourceFile P n) (case packages_symbol P f of None \<Rightarrow> Empty | Some p \<Rightarrow> p)
        (setPropertyCounter (getText nm) (propertyCounter st (getText nm)) st))"
    using None assms(3) by (intro lsifSymbol_sourceFile) simp_all
  from lsifSymbol_property [OF assms(2) assms(1), of "Suc k", OF this [unfolded cached_def]]
  show ?thesis using None
    by (simp add: cached_def global_def setPropertyCounter_def propertyCounter_def)
next
  case (Some s)
  have "lsifSymbol (Suc k) P (setPropertyCounter (getText nm) (propertyCounter st (getText nm)) st)
      (getSourceFile P n) =
      Some (s, setPropertyCounter (getText nm) (propertyCounter st (getText nm)) st)"
    using Some by (intro lsifSymbol_hit) simp
  from lsifSymbol_property [OF assms(2) assms(1), of "Suc k", OF this]
  show ?thesis using Some
    by (simp add: cached_def global_def setPropertyCounter_def propertyCounter_def)
qed

theorem property_assignment_global_under_file_witness:
  "propertyName (nodes (shorthandProgram None) 11) = Some (Name 12 ''a'') \<and>
   fromCache (newFileIndexer Map.empty) 11 = None \<and>
   nodes (shorthandProgram None) (getSourceFile (shorthandProgram None) 11) = SourceFile ''a.ts'' \<and>
   map_option (\<lambda>(s, st'). (s, localCounter st'))
     (lsifSymbol (Suc (Suc 0)) (shorthandProgram None) (newFileIndexer Map.empty) 11) =
     Some (Global [metaDescriptor ''a0''], 0)"
proof -
  have a: "propertyName (nodes (shorthandProgram None) 11) = Some (Name 12 ''a'')" by code_simp
  have b: "fromCache (newFileIndexer Map.empty) 11 = None" by code_simp
  have c: "nodes (shorthandProgram None) (getSourceFile (shorthandProgram None) 11) = SourceFile ''a.ts''"
    by code_simp
  have r: "ownerChain
      (case fromCache (newFileIndexer Map.empty) (getSourceFile (shorthandProgram None) 11) of
         Some s \<Rightarrow> s
       | None \<Rightarrow> (case packages_symbol (shorthandProgram None) ''a.ts'' of
                    None \<Rightarrow> Empty | Some p \<Rightarrow> p)) = []"
    by code_simp
  have d: "getText (Name 12 ''a'') @
      decimal (propertyCounter (newFileIndexer Map.empty) (getText (Name 12 ''a''))) = ''a0''"
    by code_simp
  have l: "localCounter (newFileIndexer Map.empty) = 0" by code_simp
  from property_assignment_global_under_file [OF a b c, of 0] a b c show ?thesis
    by (simp only: r d l append_Nil simp_thms)
qed

section \<open>Constructors\<close>

text \<open>
  C4 (amended). The descriptor of a constructor is the Method descriptor with the fixed
  name \<open><constructor>\<close>. Under a class named \<open>C\<close> whose owner has a global
  identity, the constructor resolves to the owner's chain followed by the Type
  descriptor \<open>C\<close> and that Method descriptor, and its symbol string is the owner's
  string followed by \<open>C#`<constructor>`().\<close>: the name is not a simple identifier,
  so \<open>escapedName\<close> wraps it in backticks.
\<close>

theorem constructor_symbol_escaped:
  assumes "nodes P n = ConstructorDeclaration" "fromCache st n = None"
    and "nodes P (parent P n) = ClassDeclaration (Some nm)" "getText nm = ''C''"
    and "fromCache st (parent P n) = None"
    and "lsifSymbol k P st (parent P (parent P n)) = Some (owner, st1)"
    and "\<not> isEmpty owner" "\<not> isLocal owner" "lsifValue owner = Inr p"
  shows "descriptor (nodes P n) = Some (methodDescriptor ''<constructor>'') \<and>
     map_option fst (lsifSymbol (Suc (Suc k)) P st n) =
       Some (Global (ownerChain owner @ [typeDescriptor ''C'', methodDescriptor ''<constructor>''])) \<and>
     lsifValue (Global (ownerChain owner @ [typeDescriptor ''C'', methodDescriptor ''<constructor>''])) =
       Inr (p @ ''C#'' @ [CHR 0x60] @ ''<constructor>'' @ [CHR 0x60] @ ''().'') \<and>
     endsWith (p @ ''C#'' @ [CHR 0x60] @ ''<constructor>'' @ [CHR 0x60] @ ''().'')
       (''C#'' @ [CHR 0x60] @ ''<constructor>'' @ [CHR 0x60] @ ''().'')"
proof -
  have cls: "lsifSymbol (Suc k) P st (parent P n) =
      Some (cached (parent P n) (global owner (typeDescriptor ''C'')) st1)"
    using assms(3-8)
    by (intro lsifSymbol_descriptor)
       (simp_all add: sourceFileName_def propertyName_def isAnonymousContainerOfSymbols_def
          namedDescriptor_def)
  have g: "\<not> isEmpty (global owner (typeDescriptor ''C''))"
    "\<not> isLocal (global owner (typeDescriptor ''C''))"
    by (simp_all add: global_def isEmpty_def isLocal_def)
  have "lsifSymbol (Suc (Suc k)) P st n =
      Some (cached n (global (global owner (typeDescriptor ''C'')) (methodDescriptor ''<constructor>''))
        (snd (cached (parent P n) (global owner (typeDescriptor ''C'')) st1)))"
    using assms(1,2) cls g
    by (intro lsifSymbol_descriptor[where owner = "global owner (typeDescriptor ''C'')"])
       (simp_all add: sourceFileName_def propertyName_def isAnonymousContainerOfSymbols_def
          cached_def)
  then have res: "map_option fst (lsifSymbol (Suc (Suc k)) P st n) =
       Some (Global (ownerChain owner @ [typeDescriptor ''C'', methodDescriptor ''<constructor>'']))"
    by (simp add: cached_def global_def ownerChain_def)
  have o: "descriptorStrings (ownerChain owner) = Inr p"
    using assms(7-9) not_empty_local_Global [of owner]
    by (cases owner) (simp_all add: lsifValue_def ownerChain_def isEmpty_def isLocal_def)
  have t: "descriptorStrings [typeDescriptor ''C'', methodDescriptor ''<constructor>''] =
      Inr (''C#'' @ [CHR 0x60] @ ''<constructor>'' @ [CHR 0x60] @ ''().'')"
    by code_simp
  have v: "lsifValue (Global (ownerChain owner @ [typeDescriptor ''C'', methodDescriptor ''<constructor>''])) =
       Inr (p @ ''C#'' @ [CHR 0x60] @ ''<constructor>'' @ [CHR 0x60] @ ''().'')"
    using descriptorStrings_append [OF o t] by (simp add: lsifValue_def)
  have e: "endsWith (p @ ''C#'' @ [CHR 0x60] @ ''<constructor>'' @ [CHR 0x60] @ ''().'')
       (''C#'' @ [CHR 0x60] @ ''<constructor>'' @ [CHR 0x60] @ ''().'')"
    by (rule endsWith_append)
  show ?thesis using assms(1) res v e by simp
qed

theorem constructor_symbol_escaped_witness:
  "map_option fst (lsifSymbol (Suc (Suc (Suc 0))) (classProgram (Some examplePackage)) (newFileIndexer Map.empty) 3) =
     Some (Global [packageDescriptor ''pkg'', typeDescriptor ''C'', methodDescriptor ''<constructor>'']) \<and>
   lsifValue (Global [packageDescriptor ''pkg'', typeDescriptor ''C'', methodDescriptor ''<constructor>'']) =
     Inr (''pkg/C#'' @ [CHR 0x60] @ ''<constructor>'' @ [CHR 0x60] @ ''().'')"
proof -
  have n: "nodes (classProgram (Some examplePackage)) 3 = ConstructorDeclaration"
    "nodes (classProgram (Some examplePackage)) (parent (classProgram (Some examplePackage)) 3) =
       ClassDeclaration (Some (Name 2 ''C''))"
    "nodes (classProgram (Some examplePackage)) (parent (classProgram (Some examplePackage)) (parent (classProgram (Some examplePackage)) 3)) =
       SourceFile ''c.ts''"
    "packages_symbol (classProgram (Some examplePackage)) ''c.ts'' = Some examplePackage"
    by code_simp+
  have c: "fromCache (newFileIndexer Map.empty) 3 = None"
    "fromCache (newFileIndexer Map.empty) (parent (classProgram (Some examplePackage)) 3) = None"
    "fromCache (newFileIndexer Map.empty)
       (parent (classProgram (Some examplePackage)) (parent (classProgram (Some examplePackage)) 3)) = None"
    by code_simp+
  have t: "getText (Name 2 ''C'') = ''C''" by simp
  have o: "\<not> isEmpty examplePackage" "\<not> isLocal examplePackage" "lsifValue examplePackage = Inr ''pkg/''" by code_simp+
  have f: "lsifSymbol (Suc 0) (classProgram (Some examplePackage)) (newFileIndexer Map.empty)
      (parent (classProgram (Some examplePackage)) (parent (classProgram (Some examplePackage)) 3)) =
      Some (examplePackage, snd (cached
        (parent (classProgram (Some examplePackage)) (parent (classProgram (Some examplePackage)) 3)) examplePackage
        (newFileIndexer Map.empty)))"
    using lsifSymbol_sourceFile [OF c(3) n(3), of 0] by (simp add: n(4) cached_def)
  have ch: "ownerChain examplePackage = [packageDescriptor ''pkg'']" by code_simp
  from constructor_symbol_escaped [OF n(1) c(1) n(2) t c(2) f o]
  show ?thesis by (simp only: ch append.simps simp_thms)
qed

theorem constructor_symbol_counterexample:
  "map_option (\<lambda>(s, st). lsifValue s)
     (lsifSymbol 10 (classProgram (Some examplePackage)) (newFileIndexer Map.empty) 3) =
     Some (Inr (''pkg/C#'' @ [CHR 0x60] @ ''<constructor>'' @ [CHR 0x60] @ ''().'')) \<and>
   \<not> endsWith (''pkg/C#'' @ [CHR 0x60] @ ''<constructor>'' @ [CHR 0x60] @ ''().'')
        ''C#<constructor>().''"
  by code_simp

section \<open>Definitions and references\<close>

text \<open>
  C1 (the code misses a case). The claim is that the identifier naming a class
  declaration is classified as a definition. \<open>declarationName\<close> has no case for a
  class declaration, though it has one for an interface and for an enum and
  \<open>descriptor\<close> has one for a class; so it has no name to compare the identifier
  with, and indexing \<open>class C { constructor() {} }\<close> emits the occurrence at
  \<open>C\<close> with no role bit and adds no symbol information.
\<close>

theorem class_name_is_not_a_definition:
  "declarationName (ClassDeclaration nmo) = None \<and>
   map_option (map_sum id (\<lambda>st. (occurrences (document st), symbols (document st))))
     (index 10 (classProgram (Some examplePackage)) 0 (newFileIndexer Map.empty)) =
     Some (Inr ([\<lparr>occ_range = [0, 6, 7], symbol = ''pkg/C#'', symbol_roles = 0\<rparr>], []))"
proof -
  have a: "declarationName (ClassDeclaration nmo) = None" by (simp add: declarationName_def)
  have b: "map_option (map_sum id (\<lambda>st. (occurrences (document st), symbols (document st))))
     (index 10 (classProgram (Some examplePackage)) 0 (newFileIndexer Map.empty)) =
     Some (Inr ([\<lparr>occ_range = [0, 6, 7], symbol = ''pkg/C#'', symbol_roles = 0\<rparr>], []))"
    by code_simp
  show ?thesis using a b by simp
qed

text \<open>
  C2. Indexing \<open>const a = 1; const b = { a }\<close> emits four occurrences, in this
  order: the definitions of \<open>a\<close> and \<open>b\<close>, and at the range of the \<open>a\<close>
  inside the object literal exactly two: a definition of the Meta-suffixed property
  symbol \<open>a0:\<close>, and with no role bit a reference to the symbol of the outer
  \<open>const a\<close>. This is so in a file with a package, where the symbols are global
  under it, and in a file with none, where the variable's symbol is local.
\<close>

theorem shorthand_duality:
  "map_option (map_sum id (occurrences \<circ> document))
     (index 10 (shorthandProgram (Some examplePackage)) 0 (newFileIndexer Map.empty)) =
    Some (Inr
      [\<lparr>occ_range = [0, 6, 7], symbol = ''pkg/a.'', symbol_roles = 1\<rparr>,
       \<lparr>occ_range = [0, 19, 20], symbol = ''pkg/b.'', symbol_roles = 1\<rparr>,
       \<lparr>occ_range = [0, 25, 26], symbol = ''pkg/a0:'', symbol_roles = 1\<rparr>,
       \<lparr>occ_range = [0, 25, 26], symbol = ''pkg/a.'', symbol_roles = 0\<rparr>]) \<and>
   map_option (map_sum id (occurrences \<circ> document))
     (index 10 (shorthandProgram None) 0 (newFileIndexer Map.empty)) =
    Some (Inr
      [\<lparr>occ_range = [0, 6, 7], symbol = ''local 2'', symbol_roles = 1\<rparr>,
       \<lparr>occ_range = [0, 19, 20], symbol = ''local 5'', symbol_roles = 1\<rparr>,
       \<lparr>occ_range = [0, 25, 26], symbol = ''a0:'', symbol_roles = 1\<rparr>,
       \<lparr>occ_range = [0, 25, 26], symbol = ''local 2'', symbol_roles = 0\<rparr>])"
  by code_simp

section \<open>The occurrences of an identifier\<close>

lemma lsifSymbol_document:
  "lsifSymbol k P st n = Some (s, st') \<Longrightarrow> document st' = document st"
proof (induction k arbitrary: st n s st')
  case 0
  then show ?case by simp
next
  case (Suc k)
  from Suc.prems show ?case
  proof (cases rule: lsifSymbol_Suc_cases)
    case hit
    then show ?thesis by simp
  next
    case block
    then show ?thesis by simp
  next
    case (sourceFile f)
    then show ?thesis by (simp add: cached_def)
  next
    case (propertyAssignment nm fileSym st1)
    from Suc.IH [OF propertyAssignment(5)] propertyAssignment(6) show ?thesis
      by (simp add: cached_def setPropertyCounter_def)
  next
    case (ownerless owner st1)
    from Suc.IH [OF ownerless(5)] ownerless(7) show ?thesis
      by (simp add: newLocalSymbol_def Counter_next_def)
  next
    case (container owner st1 st2)
    from Suc.IH [OF container(5)] Suc.IH [OF container(9)] container(10) show ?thesis
      by (simp add: cached_def)
  next
    case (aliased owner st1 d ds)
    from Suc.IH [OF aliased(5)] Suc.IH [OF aliased(10)] show ?thesis by simp
  next
    case (described owner st1 desc)
    from Suc.IH [OF described(5)] described(9) show ?thesis
      by (simp add: cached_def)
  next
    case (undescribed owner st1)
    from Suc.IH [OF undescribed(5)] undescribed(9) show ?thesis
      by (simp add: newLocalSymbol_def Counter_next_def)
  qed
qed

lemma emitsAt_refl: "emitsAt r st st"
  by (simp add: emitsAt_def)

lemma emitsAt_trans: "emitsAt r a b \<Longrightarrow> emitsAt r b c \<Longrightarrow> emitsAt r a c"
  by (auto simp: emitsAt_def)

lemma emitsAt_document: "document st' = document st \<Longrightarrow> emitsAt r st st'"
  by (simp add: emitsAt_def)

lemma emitsAt_push:
  "emitsAt r st (pushOccurrence \<lparr>occ_range = r, symbol = v, symbol_roles = x\<rparr> st)"
  by (simp add: emitsAt_def pushOccurrence_def)

lemma emitsAt_info: "emitsAt r st (addSymbolInformation P i sy v st)"
  by (simp add: emitsAt_def addSymbolInformation_def)

lemma shorthandValueOccurrences_emitsAt:
  "shorthandValueOccurrences k P rng ds st = Some (Inr st') \<Longrightarrow> emitsAt rng st st'"
proof (induction ds arbitrary: st)
  case Nil
  then show ?case by (simp add: emitsAt_refl)
next
  case (Cons d ds)
  from Cons.prems obtain s st1 where r: "lsifSymbol k P st d = Some (s, st1)"
    by (auto split: option.splits)
  have e1: "emitsAt rng st st1"
    using lsifSymbol_document [OF r] by (rule emitsAt_document)
  show ?case
  proof (cases "isEmpty s")
    case True
    with Cons.prems r have "shorthandValueOccurrences k P rng ds st1 = Some (Inr st')" by simp
    from emitsAt_trans [OF e1 Cons.IH [OF this]] show ?thesis .
  next
    case False
    with Cons.prems r obtain v where v: "lsifValue s = Inr v"
      and "shorthandValueOccurrences k P rng ds
        (pushOccurrence \<lparr>occ_range = rng, symbol = v, symbol_roles = 0\<rparr> st1) = Some (Inr st')"
      by (auto split: sum.splits)
    from emitsAt_trans [OF e1 emitsAt_trans [OF emitsAt_push Cons.IH [OF this(2)]]]
    show ?thesis .
  qed
qed

lemma handleShorthand_emitsAt:
  "handleShorthandPropertyDefinition k P d rng st = Some (Inr st') \<Longrightarrow> emitsAt rng st st'"
  by (auto simp: handleShorthandPropertyDefinition_def emitsAt_refl
      split: Node.splits option.splits dest: shorthandValueOccurrences_emitsAt)

lemma identifierOccurrences_emitsAt:
  "identifierOccurrences k P i sy rng isDef role ds st = Some (Inr st') \<Longrightarrow> emitsAt rng st st'"
proof (induction ds arbitrary: st)
  case Nil
  then show ?case by (simp add: emitsAt_refl)
next
  case (Cons d ds)
  from Cons.prems obtain s st1 where r: "lsifSymbol k P st d = Some (s, st1)"
    by (auto split: option.splits)
  have e1: "emitsAt rng st st1"
    using lsifSymbol_document [OF r] by (rule emitsAt_document)
  show ?case
  proof (cases "isEmpty s")
    case True
    with Cons.prems r
    have "identifierOccurrences k P i sy rng isDef role ds st1 = Some (Inr st')" by simp
    from emitsAt_trans [OF e1 Cons.IH [OF this]] show ?thesis .
  next
    case False
    with Cons.prems r obtain v where v: "lsifValue s = Inr v"
      by (auto split: sum.splits)
    let ?st2 = "pushOccurrence \<lparr>occ_range = rng, symbol = v, symbol_roles = role\<rparr> st1"
    have e2: "emitsAt rng st ?st2" by (rule emitsAt_trans [OF e1 emitsAt_push])
    show ?thesis
    proof (cases isDef)
      case True
      with Cons.prems r False v obtain st3 where
        h: "handleShorthandPropertyDefinition k P d rng (addSymbolInformation P i sy v ?st2) =
              Some (Inr st3)"
        and rest: "identifierOccurrences k P i sy rng isDef role ds st3 = Some (Inr st')"
        by (auto simp: Let_def split: option.splits sum.splits)
      from emitsAt_trans [OF e2 emitsAt_trans [OF emitsAt_info
        emitsAt_trans [OF handleShorthand_emitsAt [OF h] Cons.IH [OF rest]]]]
      show ?thesis .
    next
      case notDef: False
      with Cons.prems r False v
      have "identifierOccurrences k P i sy rng isDef role ds ?st2 = Some (Inr st')"
        by (simp add: Let_def)
      from emitsAt_trans [OF e2 Cons.IH [OF this]] show ?thesis .
    qed
  qed
qed

text \<open>
  The range of the occurrences of an identifier: a visit of an identifier that
  completes keeps the occurrences that were there and adds occurrences that all carry
  the range of the identifier, as \<open>Range.fromNode(identifier).toLsif()\<close> gave it.
\<close>

theorem visitIdentifier_emits_at_identifier_range:
  "visitIdentifier k P node symb st = Some (Inr st') \<Longrightarrow>
   \<exists>new. occurrences (document st') = occurrences (document st) @ new \<and>
     list_all (\<lambda>occ. occ_range occ = rangeOf P node) new"
  using identifierOccurrences_emitsAt [of k P node symb "rangeOf P node"]
  by (simp add: visitIdentifier_def Let_def emitsAt_def)

theorem visitIdentifier_emits_at_identifier_range_witness:
  "\<exists>st'. visitIdentifier 10 (shorthandProgram (Some examplePackage)) 12 2
       (newFileIndexer Map.empty) = Some (Inr st') \<and>
     (\<exists>new. occurrences (document st') =
          occurrences (document (newFileIndexer Map.empty)) @ new \<and>
        list_all (\<lambda>occ. occ_range occ = rangeOf (shorthandProgram (Some examplePackage)) 12)
          new)"
proof -
  have "case visitIdentifier 10 (shorthandProgram (Some examplePackage)) 12 2
      (newFileIndexer Map.empty) of Some (Inr st') \<Rightarrow> True | _ \<Rightarrow> False"
    by code_simp
  then obtain st' where v: "visitIdentifier 10 (shorthandProgram (Some examplePackage)) 12 2
      (newFileIndexer Map.empty) = Some (Inr st')"
    by (auto split: option.splits sum.splits)
  from visitIdentifier_emits_at_identifier_range [OF v] v show ?thesis by blast
qed

section \<open>Symbol strings of global identities\<close>


















lemma plainSymbol_simple [simp]: "plainSymbol Empty" "plainSymbol (Local i)"
  by (simp_all add: plainSymbol_def ownerChain_def)




lemma plainTables_setPropertyCounter [simp]:
  "plainTables (setPropertyCounter nm c st) = plainTables st"
  by (simp add: plainTables_def setPropertyCounter_def)







section \<open>Idempotence of the resolver\<close>

lemma wellFounded_parent:
  "wellFounded P rank \<Longrightarrow> nodes P n \<noteq> Block \<Longrightarrow> sourceFileName (nodes P n) = None \<Longrightarrow>
   propertyName (nodes P n) = None \<Longrightarrow> rank (parent P n) < rank n"
  unfolding wellFounded_def
  by (drule spec [of _ n]) (simp add: dependencies_def)

lemma wellFounded_file:
  "wellFounded P rank \<Longrightarrow> nodes P n \<noteq> Block \<Longrightarrow> sourceFileName (nodes P n) = None \<Longrightarrow>
   propertyName (nodes P n) = Some nm \<Longrightarrow> rank (getSourceFile P n) < rank n"
  unfolding wellFounded_def
  by (drule spec [of _ n]) (simp add: dependencies_def)

lemma wellFounded_alias:
  "wellFounded P rank \<Longrightarrow> nodes P n = ImportSpecifier \<Longrightarrow>
   typeSymbolDeclarations P n = d # ds \<Longrightarrow> rank d < rank n"
  unfolding wellFounded_def
  by (drule spec [of _ n]) (simp add: dependencies_def sourceFileName_def propertyName_def)

lemma fromCache_None:
  "(fromCache st n = None) = (globalSymbolTable st n = None \<and> localSymbolTable st n = None)"
  by (simp add: fromCache_def split: option.split)

lemma tables_cached:
  "(s, st') = cached m v st \<Longrightarrow> x \<noteq> m \<Longrightarrow>
   globalSymbolTable st' x = globalSymbolTable st x \<and>
   localSymbolTable st' x = localSymbolTable st x"
  by (simp add: cached_def)

lemma tables_newLocalSymbol:
  "(s, st') = newLocalSymbol m st \<Longrightarrow> x \<noteq> m \<Longrightarrow>
   globalSymbolTable st' x = globalSymbolTable st x \<and>
   localSymbolTable st' x = localSymbolTable st x"
  by (simp add: newLocalSymbol_def Counter_next_def)

lemma tables_setPropertyCounter [simp]:
  "globalSymbolTable (setPropertyCounter nm c st) = globalSymbolTable st"
  "localSymbolTable (setPropertyCounter nm c st) = localSymbolTable st"
  by (simp_all add: setPropertyCounter_def)

lemma lsifSymbol_frame:
  assumes wf: "wellFounded P rank"
  shows "lsifSymbol k P st m = Some (s, st') \<Longrightarrow> rank m < rank x \<Longrightarrow>
     globalSymbolTable st' x = globalSymbolTable st x \<and>
     localSymbolTable st' x = localSymbolTable st x"
proof (induction k arbitrary: st m s st')
  case 0
  then show ?case by simp
next
  case (Suc k)
  from Suc.prems(2) have ne: "x \<noteq> m" by auto
  from Suc.prems(1) show ?case
  proof (cases rule: lsifSymbol_Suc_cases)
    case hit
    then show ?thesis by simp
  next
    case block
    then show ?thesis by simp
  next
    case (sourceFile f)
    from tables_cached [OF sourceFile(4) ne] show ?thesis .
  next
    case (propertyAssignment nm fileSym st1)
    from wellFounded_file [OF wf propertyAssignment(2,3,4)] Suc.prems(2)
    have "rank (getSourceFile P m) < rank x" by simp
    from Suc.IH [OF propertyAssignment(5) this] tables_cached [OF propertyAssignment(6) ne]
    show ?thesis by simp
  next
    case (ownerless owner st1)
    from wellFounded_parent [OF wf ownerless(2,3,4)] Suc.prems(2)
    have "rank (parent P m) < rank x" by simp
    from Suc.IH [OF ownerless(5) this] tables_newLocalSymbol [OF ownerless(7) ne]
    show ?thesis by simp
  next
    case (container owner st1 st2)
    from wellFounded_parent [OF wf container(2,3,4)] Suc.prems(2)
    have r: "rank (parent P m) < rank x" by simp
    from Suc.IH [OF container(5) r] Suc.IH [OF container(9) r] tables_cached [OF container(10) ne]
    show ?thesis by simp
  next
    case (aliased owner st1 d ds)
    from wellFounded_parent [OF wf aliased(2,3,4)] Suc.prems(2)
    have r: "rank (parent P m) < rank x" by simp
    from wellFounded_alias [OF wf aliased(8,9)] Suc.prems(2)
    have r': "rank d < rank x" by simp
    from Suc.IH [OF aliased(5) r] Suc.IH [OF aliased(10) r']
    show ?thesis by simp
  next
    case (described owner st1 desc)
    from wellFounded_parent [OF wf described(2,3,4)] Suc.prems(2)
    have "rank (parent P m) < rank x" by simp
    from Suc.IH [OF described(5) this] tables_cached [OF described(9) ne]
    show ?thesis by simp
  next
    case (undescribed owner st1)
    from wellFounded_parent [OF wf undescribed(2,3,4)] Suc.prems(2)
    have "rank (parent P m) < rank x" by simp
    from Suc.IH [OF undescribed(5) this] tables_newLocalSymbol [OF undescribed(9) ne]
    show ?thesis by simp
  qed
qed

lemma fromCache_cached:
  "(s, st') = cached m v st \<Longrightarrow> fromCache st' y = (if y = m then Some v else fromCache st y)"
  by (auto simp: cached_def fromCache_def split: option.splits)

lemma fromCache_newLocal:
  "(s, st') = newLocalSymbol m st \<Longrightarrow> fromCache st m = None \<Longrightarrow>
   fromCache st' y = (if y = m then Some s else fromCache st y)"
  by (auto simp: newLocalSymbol_def Counter_next_def fromCache_def split: option.splits)

lemma settled_lsifSymbol:
  "settled k P st n = Some s \<Longrightarrow> lsifSymbol k P st n = Some (s, st)"
proof (induction k arbitrary: n s)
  case 0
  then show ?case by simp
next
  case (Suc k)
  show ?case
  proof (cases "fromCache st n")
    case (Some c)
    with Suc.prems have "c = s" by simp
    with Some show ?thesis by (simp add: lsifSymbol_hit)
  next
    case None
    show ?thesis
    proof (cases "nodes P n = Block")
      case True
      with Suc.prems None have "s = Empty" by simp
      with None True show ?thesis by (simp add: lsifSymbol_block)
    next
      case False
      with Suc.prems None have imp: "nodes P n = ImportSpecifier"
        by (simp split: if_splits)
      with Suc.prems None False obtain owner d ds where
        o: "settled k P st (parent P n) = Some owner" "\<not> isEmpty owner" "\<not> isLocal owner"
        and d: "typeSymbolDeclarations P n = d # ds" "settled k P st d = Some s"
        by (auto split: option.splits if_splits list.splits)
      have k: "sourceFileName (nodes P n) = None" "propertyName (nodes P n) = None"
        "\<not> isAnonymousContainerOfSymbols (nodes P n)"
        using imp by (simp_all add: sourceFileName_def propertyName_def
            isAnonymousContainerOfSymbols_def)
      have e: "(if nodes P n = ImportSpecifier then typeSymbolDeclarations P n else []) = d # ds"
        using imp d(1) by simp
      from lsifSymbol_alias [OF None False k(1,2) Suc.IH [OF o(1)] o(2,3) k(3) e]
        Suc.IH [OF d(2)]
      show ?thesis by simp
    qed
  qed
qed

lemma settled_Suc:
  "settled k P st n = Some s \<Longrightarrow> settled (Suc k) P st n = Some s"
proof (induction k arbitrary: n s)
  case 0
  then show ?case by simp
next
  case (Suc k)
  show ?case
  proof (cases "fromCache st n")
    case (Some c)
    with Suc.prems show ?thesis by simp
  next
    case None
    show ?thesis
    proof (cases "nodes P n = Block")
      case True
      with Suc.prems None show ?thesis by simp
    next
      case False
      with Suc.prems None have imp: "nodes P n = ImportSpecifier"
        by (simp split: if_splits)
      with Suc.prems None False obtain owner d ds where
        o: "settled k P st (parent P n) = Some owner" "\<not> isEmpty owner" "\<not> isLocal owner"
        and d: "typeSymbolDeclarations P n = d # ds" "settled k P st d = Some s"
        by (auto split: option.splits if_splits list.splits)
      from Suc.IH [OF o(1)] Suc.IH [OF d(2)] o(2,3) d(1) None False imp
      show ?thesis by (subst settled.simps(2)) simp
    qed
  qed
qed

lemma settled_mono:
  "settled k P st n = Some s \<Longrightarrow> k \<le> j \<Longrightarrow> settled j P st n = Some s"
  by (induction j) (auto simp: le_Suc_eq settled_Suc simp del: settled.simps)

lemma settled_unique:
  assumes "settled i P st n = Some a" "settled j P st n = Some b"
  shows "a = b"
  using settled_mono [OF assms(1), of "max i j"] settled_mono [OF assms(2), of "max i j"]
  by simp

lemma settled_cong:
  "(\<And>x. fromCache st' x = fromCache st x) \<Longrightarrow> settled k P st' n = settled k P st n"
  by (induction k arbitrary: n) (simp_all split: option.split list.split)

lemma settled_update:
  assumes un: "\<And>i. settled i P st m = None"
    and up: "\<And>y. fromCache st' y = (if y = m then Some v else fromCache st y)"
  shows "settled j P st x = Some t \<Longrightarrow> settled j P st' x = Some t"
proof (induction j arbitrary: x t)
  case 0
  then show ?case by simp
next
  case (Suc j)
  from Suc.prems un [of "Suc j"] have "x \<noteq> m" by auto
  with up have fc: "fromCache st' x = fromCache st x" by simp
  show ?case
  proof (cases "fromCache st x")
    case (Some c)
    with Suc.prems fc show ?thesis by simp
  next
    case None
    show ?thesis
    proof (cases "nodes P x = Block")
      case True
      with Suc.prems None fc show ?thesis by simp
    next
      case False
      with Suc.prems None have imp: "nodes P x = ImportSpecifier"
        by (simp split: if_splits)
      with Suc.prems None False obtain owner d ds where
        o: "settled j P st (parent P x) = Some owner" "\<not> isEmpty owner" "\<not> isLocal owner"
        and d: "typeSymbolDeclarations P x = d # ds" "settled j P st d = Some t"
        by (auto split: option.splits if_splits list.splits)
      from Suc.IH [OF o(1)] Suc.IH [OF d(2)] o(2,3) d(1) None False imp fc
      show ?thesis by (subst settled.simps(2)) simp
    qed
  qed
qed

lemma unsettledI:
  assumes "fromCache st n = None" "nodes P n \<noteq> Block"
    and "nodes P n = ImportSpecifier \<longrightarrow> typeSymbolDeclarations P n = [] \<or>
      (\<exists>owner j. settled j P st (parent P n) = Some owner \<and> (isEmpty owner \<or> isLocal owner))"
  shows "settled i P st n = None"
proof (cases i)
  case 0
  then show ?thesis by simp
next
  case (Suc i')
  show ?thesis
  proof (cases "nodes P n = ImportSpecifier \<and> typeSymbolDeclarations P n \<noteq> []")
    case False
    with assms(1,2) Suc show ?thesis by (auto split: option.splits list.splits)
  next
    case True
    with assms(3) obtain owner j where
      o: "settled j P st (parent P n) = Some owner" "isEmpty owner \<or> isLocal owner"
      by auto
    show ?thesis
    proof (cases "settled i' P st (parent P n)")
      case None
      with assms(1,2) Suc True show ?thesis by simp
    next
      case (Some owner')
      from settled_unique [OF Some o(1)] o(2) have "isEmpty owner' \<or> isLocal owner'" by simp
      with assms(1,2) Suc True Some show ?thesis by simp
    qed
  qed
qed

lemma settle_by_entry:
  assumes "\<And>i. settled i P st1 n = None"
    and "\<And>y. fromCache st' y = (if y = n then Some s else fromCache st1 y)"
  shows "settled (Suc k) P st' n = Some s \<and>
     (\<forall>j x t. settled j P st1 x = Some t \<longrightarrow> settled j P st' x = Some t)"
  using settled_update [OF assms] assms(2) by simp

lemma resolve_settles:
  assumes wf: "wellFounded P rank"
  shows "lsifSymbol k P st n = Some (s, st') \<Longrightarrow>
     settled k P st' n = Some s \<and>
     (\<forall>j x t. settled j P st x = Some t \<longrightarrow> settled j P st' x = Some t)"
proof (induction k arbitrary: st n s st')
  case 0
  then show ?case by simp
next
  case (Suc k)
  from Suc.prems show ?case
  proof (cases rule: lsifSymbol_Suc_cases)
    case hit
    then show ?thesis by simp
  next
    case block
    then show ?thesis by simp
  next
    case (sourceFile f)
    have "nodes P n \<noteq> ImportSpecifier"
      using sourceFile(3) by (auto simp: sourceFileName_def)
    with sourceFile(1,2) have "\<And>i. settled i P st n = None"
      by (intro unsettledI) simp_all
    from settle_by_entry [where k = k, OF this fromCache_cached [OF sourceFile(4)]]
    have "settled (Suc k) P st' n =
        Some (case packages_symbol P f of None \<Rightarrow> Empty | Some p \<Rightarrow> p) \<and>
      (\<forall>j x t. settled j P st x = Some t \<longrightarrow> settled j P st' x = Some t)" .
    moreover from sourceFile(4)
    have "s = (case packages_symbol P f of None \<Rightarrow> Empty | Some p \<Rightarrow> p)"
      by (simp add: cached_def)
    ultimately show ?thesis by (simp del: settled.simps)
  next
    case (propertyAssignment nm fileSym st1)
    let ?st0 = "setPropertyCounter (getText nm) (propertyCounter st (getText nm)) st"
    let ?st1' = "setPropertyCounter (getText nm) (Suc (propertyCounter st1 (getText nm))) st1"
    let ?g = "global fileSym (metaDescriptor (getText nm @ decimal (propertyCounter st1 (getText nm))))"
    from wellFounded_file [OF wf propertyAssignment(2,3,4)]
    have r: "rank (getSourceFile P n) < rank n" .
    from lsifSymbol_frame [OF wf propertyAssignment(5) r] propertyAssignment(1)
    have c1: "fromCache ?st1' n = None"
      by (simp add: fromCache_None)
    have "nodes P n \<noteq> ImportSpecifier"
      using propertyAssignment(4) by (auto simp: propertyName_def)
    with c1 propertyAssignment(2) have un: "\<And>i. settled i P ?st1' n = None"
      by (intro unsettledI) simp_all
    from settle_by_entry [where k = k, OF un fromCache_cached [OF propertyAssignment(6)]]
    have a: "settled (Suc k) P st' n = Some ?g"
      and b: "\<And>j x t. settled j P ?st1' x = Some t \<Longrightarrow> settled j P st' x = Some t"
      by (simp_all del: settled.simps)
    from propertyAssignment(6) have sg: "s = ?g" by (simp add: cached_def)
    from Suc.IH [OF propertyAssignment(5)]
    have p: "\<And>j x t. settled j P ?st0 x = Some t \<Longrightarrow> settled j P st1 x = Some t" by simp
    have "settled j P st' x = Some t" if "settled j P st x = Some t" for j x t
    proof -
      from that have "settled j P ?st0 x = Some t"
        by (simp add: settled_cong [of ?st0 st])
      from p [OF this] have "settled j P ?st1' x = Some t"
        by (simp add: settled_cong [of ?st1' st1])
      from b [OF this] show ?thesis .
    qed
    with a sg show ?thesis by (simp del: settled.simps)
  next
    case (ownerless owner st1)
    from wellFounded_parent [OF wf ownerless(2,3,4)]
    have r: "rank (parent P n) < rank n" .
    from lsifSymbol_frame [OF wf ownerless(5) r] ownerless(1)
    have c1: "fromCache st1 n = None" by (simp add: fromCache_None)
    from Suc.IH [OF ownerless(5)]
    have o: "settled k P st1 (parent P n) = Some owner"
      and p: "\<And>j x t. settled j P st x = Some t \<Longrightarrow> settled j P st1 x = Some t"
      by simp_all
    from c1 ownerless(2) o ownerless(6) have un: "\<And>i. settled i P st1 n = None"
      by (intro unsettledI) auto
    from settle_by_entry [where k = k, OF un fromCache_newLocal [OF ownerless(7) c1]] p
    show ?thesis by (simp del: settled.simps)
  next
    case (container owner st1 st2)
    from wellFounded_parent [OF wf container(2,3,4)]
    have r: "rank (parent P n) < rank n" .
    from lsifSymbol_frame [OF wf container(5) r] lsifSymbol_frame [OF wf container(9) r]
      container(1)
    have c2: "fromCache st2 n = None" by (simp add: fromCache_None)
    from Suc.IH [OF container(5)]
    have p1: "\<And>j x t. settled j P st x = Some t \<Longrightarrow> settled j P st1 x = Some t" by simp
    from Suc.IH [OF container(9)]
    have p2: "\<And>j x t. settled j P st1 x = Some t \<Longrightarrow> settled j P st2 x = Some t" by simp
    have "nodes P n \<noteq> ImportSpecifier"
      using container(8) by (auto simp: isAnonymousContainerOfSymbols_def)
    with c2 container(2) have un: "\<And>i. settled i P st2 n = None"
      by (intro unsettledI) simp_all
    from settle_by_entry [where k = k, OF un fromCache_cached [OF container(10)]] p1 p2
    show ?thesis by (simp del: settled.simps)
  next
    case (aliased owner st1 d ds)
    from wellFounded_parent [OF wf aliased(2,3,4)]
    have r: "rank (parent P n) < rank n" .
    from wellFounded_alias [OF wf aliased(8,9)]
    have r': "rank d < rank n" .
    from lsifSymbol_frame [OF wf aliased(5) r] lsifSymbol_frame [OF wf aliased(10) r']
      aliased(1)
    have c: "fromCache st' n = None" by (simp add: fromCache_None)
    from Suc.IH [OF aliased(5)]
    have o: "settled k P st1 (parent P n) = Some owner"
      and p1: "\<And>j x t. settled j P st x = Some t \<Longrightarrow> settled j P st1 x = Some t"
      by simp_all
    from Suc.IH [OF aliased(10)]
    have d: "settled k P st' d = Some s"
      and p2: "\<And>j x t. settled j P st1 x = Some t \<Longrightarrow> settled j P st' x = Some t"
      by simp_all
    from p2 [OF o] d c aliased(2,6,7,8,9)
    have "settled (Suc k) P st' n = Some s" by simp
    with p1 p2 show ?thesis by (simp del: settled.simps)
  next
    case (described owner st1 desc)
    from wellFounded_parent [OF wf described(2,3,4)]
    have r: "rank (parent P n) < rank n" .
    from lsifSymbol_frame [OF wf described(5) r] described(1)
    have c1: "fromCache st1 n = None" by (simp add: fromCache_None)
    from Suc.IH [OF described(5)]
    have p: "\<And>j x t. settled j P st x = Some t \<Longrightarrow> settled j P st1 x = Some t"
      by simp_all
    from c1 described(2,8) have un: "\<And>i. settled i P st1 n = None"
      by (intro unsettledI) auto
    from described(9) have sg: "s = global owner desc" by (simp add: cached_def)
    from settle_by_entry [where k = k, OF un fromCache_cached [OF described(9)]] p sg
    show ?thesis by (simp del: settled.simps)
  next
    case (undescribed owner st1)
    from wellFounded_parent [OF wf undescribed(2,3,4)]
    have r: "rank (parent P n) < rank n" .
    from lsifSymbol_frame [OF wf undescribed(5) r] undescribed(1)
    have c1: "fromCache st1 n = None" by (simp add: fromCache_None)
    from Suc.IH [OF undescribed(5)]
    have p: "\<And>j x t. settled j P st x = Some t \<Longrightarrow> settled j P st1 x = Some t"
      by simp_all
    from c1 undescribed(2,8) have un: "\<And>i. settled i P st1 n = None"
      by (intro unsettledI) auto
    from settle_by_entry [where k = k, OF un fromCache_newLocal [OF undescribed(9) c1]] p
    show ?thesis by (simp del: settled.simps)
  qed
qed

lemma resolveAll_settled:
  assumes wf: "wellFounded P rank"
  shows "resolveAll j P st ms = Some (ss, st') \<Longrightarrow> settled k P st x = Some t \<Longrightarrow>
     settled k P st' x = Some t"
proof (induction ms arbitrary: st ss)
  case Nil
  then show ?case by simp
next
  case (Cons m ms)
  from Cons.prems(1) obtain s st1 ss' where
    a: "lsifSymbol j P st m = Some (s, st1)" and b: "resolveAll j P st1 ms = Some (ss', st')"
    by (auto split: option.splits)
  from resolve_settles [OF wf a] Cons.prems(2) have "settled k P st1 x = Some t" by simp
  from Cons.IH [OF b this] show ?case .
qed

text \<open>
  C7. In a well-founded program, once a resolution of a node has returned an identity,
  resolving the node again, at once or after any further resolutions, returns the same
  identity and changes nothing.
\<close>

theorem resolution_is_idempotent:
  assumes "wellFounded P rank"
    and "lsifSymbol k P st n = Some (s, st1)"
    and "resolveAll j P st1 ms = Some (ss, st2)"
  shows "lsifSymbol k P st2 n = Some (s, st2)"
proof -
  from resolve_settles [OF assms(1,2)] have "settled k P st1 n = Some s" by simp
  from resolveAll_settled [OF assms(1,3) this] have "settled k P st2 n = Some s" .
  then show ?thesis by (rule settled_lsifSymbol)
qed

lemma shorthandProgram_wellFounded:
  "wellFounded (shorthandProgram package) (\<lambda>n. n)"
proof -
  have small: "list_all (\<lambda>n. list_all (\<lambda>d. d < n) (dependencies (shorthandProgram None) n))
      [0..<13]"
    by code_simp
  have same: "dependencies (shorthandProgram package) n = dependencies (shorthandProgram None) n"
    for n
    by (simp add: dependencies_def shorthandProgram_def listProgram_def)
  have "list_all (\<lambda>d. d < n) (dependencies (shorthandProgram package) n)" for n
  proof (cases "n < 13")
    case True
    then have "n \<in> set [0..<13]" by simp
    with small same show ?thesis by (simp only: list_all_iff) blast
  next
    case False
    then show ?thesis
      by (simp add: dependencies_def shorthandProgram_def listProgram_def sourceFileName_def
          propertyName_def)
  qed
  then show ?thesis by (simp add: wellFounded_def)
qed

theorem resolution_is_idempotent_witness:
  "wellFounded (shorthandProgram (Some examplePackage)) (\<lambda>n. n) \<and>
   (\<exists>st1 ss st2.
      lsifSymbol 10 (shorthandProgram (Some examplePackage)) (newFileIndexer Map.empty) 3 =
        Some (Global [packageDescriptor ''pkg'', termDescriptor ''a''], st1) \<and>
      resolveAll 10 (shorthandProgram (Some examplePackage)) st1 [11, 8, 3] = Some (ss, st2) \<and>
      lsifSymbol 10 (shorthandProgram (Some examplePackage)) st2 3 =
        Some (Global [packageDescriptor ''pkg'', termDescriptor ''a''], st2))"
proof -
  have e1: "map_option fst
      (lsifSymbol 10 (shorthandProgram (Some examplePackage)) (newFileIndexer Map.empty) 3) =
      Some (Global [packageDescriptor ''pkg'', termDescriptor ''a''])"
    by code_simp
  then obtain st1 where a:
    "lsifSymbol 10 (shorthandProgram (Some examplePackage)) (newFileIndexer Map.empty) 3 =
       Some (Global [packageDescriptor ''pkg'', termDescriptor ''a''], st1)"
    by (cases "lsifSymbol 10 (shorthandProgram (Some examplePackage)) (newFileIndexer Map.empty) 3")
       auto
  have "case lsifSymbol 10 (shorthandProgram (Some examplePackage)) (newFileIndexer Map.empty) 3 of
      None \<Rightarrow> False
    | Some (s, st1) \<Rightarrow>
        (case resolveAll 10 (shorthandProgram (Some examplePackage)) st1 [11, 8, 3] of
           None \<Rightarrow> False | Some r \<Rightarrow> True)"
    by code_simp
  with a obtain ss st2 where b:
    "resolveAll 10 (shorthandProgram (Some examplePackage)) st1 [11, 8, 3] = Some (ss, st2)"
    by (cases "resolveAll 10 (shorthandProgram (Some examplePackage)) st1 [11, 8, 3]")
       (auto simp del: resolveAll.simps)
  from resolution_is_idempotent [OF shorthandProgram_wellFounded a b] a b
    shorthandProgram_wellFounded [of "Some examplePackage"]
  show ?thesis by blast
qed

section \<open>Totality of the resolver\<close>

lemma lsifSymbol_total_aux:
  assumes wf: "wellFounded P rank"
  shows "rank n < k \<Longrightarrow> \<exists>s st'. lsifSymbol k P st n = Some (s, st')"
proof (induction k arbitrary: n st)
  case 0
  then show ?case by simp
next
  case (Suc k)
  show ?case
  proof (cases "fromCache st n")
    case (Some c)
    from lsifSymbol_hit [OF Some] show ?thesis by blast
  next
    case None
    show ?thesis
    proof (cases "nodes P n = Block")
      case True
      from lsifSymbol_block [OF None True] show ?thesis by blast
    next
      case notBlock: False
      show ?thesis
      proof (cases "sourceFileName (nodes P n)")
        case (Some f)
        from lsifSymbol_file_step [OF None notBlock Some, of k] show ?thesis
          by (simp add: cached_def)
      next
        case noFile: None
        show ?thesis
        proof (cases "propertyName (nodes P n)")
          case (Some nm)
          from wellFounded_file [OF wf notBlock noFile Some] Suc.prems
          have "rank (getSourceFile P n) < k" by simp
          from Suc.IH [OF this] obtain fileSym st1 where
            "lsifSymbol k P (setPropertyCounter (getText nm) (propertyCounter st (getText nm)) st)
               (getSourceFile P n) = Some (fileSym, st1)"
            by blast
          from lsifSymbol_property [OF None Some this] show ?thesis
            by (simp add: cached_def)
        next
          case noProp: None
          from wellFounded_parent [OF wf notBlock noFile noProp] Suc.prems
          have r: "rank (parent P n) < k" by simp
          from Suc.IH [OF r] obtain owner st1 where
            o: "lsifSymbol k P st (parent P n) = Some (owner, st1)" by blast
          note pre = None notBlock noFile noProp o
          show ?thesis
          proof (cases "isEmpty owner \<or> isLocal owner")
            case True
            from lsifSymbol_owner_local [OF pre True] show ?thesis
              by (simp add: newLocalSymbol_def Counter_next_def)
          next
            case False
            then have g: "\<not> isEmpty owner" "\<not> isLocal owner" by simp_all
            show ?thesis
            proof (cases "isAnonymousContainerOfSymbols (nodes P n)")
              case True
              from Suc.IH [OF r] obtain s2 st2 where
                "lsifSymbol k P st1 (parent P n) = Some (s2, st2)" by blast
              from lsifSymbol_container [OF pre g True this] show ?thesis
                by (simp add: cached_def)
            next
              case notContainer: False
              show ?thesis
              proof (cases "if nodes P n = ImportSpecifier then typeSymbolDeclarations P n else []")
                case (Cons d ds)
                then have i: "nodes P n = ImportSpecifier" "typeSymbolDeclarations P n = d # ds"
                  by (simp_all split: if_splits)
                from wellFounded_alias [OF wf i] Suc.prems have "rank d < k" by simp
                from Suc.IH [OF this] obtain s2 st2 where
                  "lsifSymbol k P st1 d = Some (s2, st2)" by blast
                with lsifSymbol_alias [OF pre g notContainer Cons] show ?thesis by simp
              next
                case Nil
                show ?thesis
                proof (cases "descriptor (nodes P n)")
                  case (Some desc)
                  from lsifSymbol_described [OF pre g notContainer Nil Some] show ?thesis
                    by (simp add: cached_def)
                next
                  case noDesc: None
                  from lsifSymbol_undescribed [OF pre g notContainer Nil noDesc] show ?thesis
                    by (simp add: newLocalSymbol_def Counter_next_def)
                qed
              qed
            qed
          qed
        qed
      qed
    qed
  qed
qed

text \<open>
  The resolver returns: in a well-founded program, a depth bound above the rank of the
  node is enough for the resolution of the node to return an identity, from any state.
\<close>

theorem resolver_is_total:
  "wellFounded P rank \<Longrightarrow> rank n < k \<Longrightarrow> \<exists>s st'. lsifSymbol k P st n = Some (s, st')"
  by (rule lsifSymbol_total_aux)

theorem resolver_is_total_witness:
  "wellFounded (shorthandProgram (Some examplePackage)) (\<lambda>n. n) \<and> (3 :: nat) < 4 \<and>
   (\<exists>s st'. lsifSymbol 4 (shorthandProgram (Some examplePackage)) (newFileIndexer Map.empty) 3 =
      Some (s, st'))"
proof -
  have a: "(3 :: nat) < 4" by simp
  from resolver_is_total [OF shorthandProgram_wellFounded a] a
    shorthandProgram_wellFounded [of "Some examplePackage"]
  show ?thesis by blast
qed

end
